theory Spec2Isabelle
  imports Main "HOL-Library.Multiset"
begin

section \<open>Data model\<close>

text \<open>
  The verified program is the GraphQL server of \<^verbatim>\<open>express-prisma-react/server\<close>:
  the resolver map of \<^verbatim>\<open>src/resolvers.js\<close>, the error classes of
  \<^verbatim>\<open>src/utils/errors.js\<close> and the context function \<^verbatim>\<open>getContext\<close> of the server's
  entry file. The rows are those of the Prisma schema (models \<^verbatim>\<open>User\<close> and \<^verbatim>\<open>Task\<close>).
  The column \<^verbatim>\<open>id\<close> is called \<open>user_id\<close> and \<open>task_id\<close> here, since \<open>id\<close> is HOL's
  identity function. A \<^verbatim>\<open>DateTime\<close> is the integer number of milliseconds of its instant.
  Strings are lists of 8-bit characters.
\<close>

record User =
  user_id :: string
  name :: string
  email :: string
  password :: string

record Task =
  task_id :: string
  title :: string
  description :: "string option"
  completed :: bool
  createdAt :: int
  updatedAt :: int
  userId :: string

text \<open>The database: the two tables, each in storage order.\<close>

record db =
  users :: "User list"
  tasks :: "Task list"

text \<open>
  What the ORM raises: it rejects the arguments of a call before it reaches the database
  (a \<^verbatim>\<open>null\<close> for a column that is not nullable), and it raises when the row to update
  or delete does not exist.
\<close>

datatype prisma_error = PrismaClientValidationError | RecordNotFound

text \<open>
  The error classes of \<^verbatim>\<open>utils/errors.js\<close>, each carrying its message. An exception of
  the ORM itself that a resolver lets through is \<open>PrismaClientError\<close>.
\<close>

datatype gql_error =
    AuthenticationError string
  | ForbiddenError string
  | ValidationError string
  | NotFoundError string
  | PrismaClientError prisma_error

text \<open>The request context built by \<^verbatim>\<open>getContext\<close>: the user row, or \<^verbatim>\<open>null\<close>.\<close>

record Context =
  user :: "User option"

text \<open>A task returned with \<^verbatim>\<open>include: { user: true }\<close>: the row and its owner's row.\<close>

type_synonym TaskWithUser = "Task \<times> User option"

record TaskEdge =
  cursor :: string
  node :: TaskWithUser

record PageInfo =
  hasNextPage :: bool
  hasPreviousPage :: bool
  startCursor :: "string option"
  endCursor :: "string option"

record TaskConnection =
  edges :: "TaskEdge list"
  pageInfo :: PageInfo
  totalCount :: nat

record CreateTaskInput =
  ct_title :: string
  ct_description :: "string option"

text \<open>
  A field of a GraphQL input object whose type is nullable: the caller leaves it out,
  sends the literal \<^verbatim>\<open>null\<close>, or sends a value.
\<close>

datatype 'a arg = Absent | Null | Given 'a

text \<open>
  \<^verbatim>\<open>UpdateTaskInput\<close>: every field is nullable. It is also the shape of the \<^verbatim>\<open>data\<close>
  argument of \<^verbatim>\<open>prisma.task.update\<close>: \<^verbatim>\<open>updateTask\<close> passes its input on as it is, and
  \<^verbatim>\<open>toggleTaskComplete\<close> passes \<^verbatim>\<open>{ completed: ... }\<close>.
\<close>

record UpdateTaskInput =
  ut_title :: "string arg"
  ut_description :: "string arg"
  ut_completed :: "bool arg"

section \<open>The storage layer\<close>

text \<open>
  The calls of the Prisma client that the resolvers make, by their documented contract.
  \<^verbatim>\<open>findUnique\<close> returns the row with the given primary key or \<^verbatim>\<open>null\<close>;
  \<^verbatim>\<open>count\<close> counts the rows that match \<^verbatim>\<open>where\<close>;
  \<^verbatim>\<open>findMany\<close> filters by \<^verbatim>\<open>where\<close>, orders by \<^verbatim>\<open>orderBy\<close>, moves to the
  position of \<^verbatim>\<open>cursor\<close> in that list, skips \<^verbatim>\<open>skip\<close> rows and returns \<^verbatim>\<open>take\<close> rows;
  a negative \<^verbatim>\<open>take\<close> pages backwards from that position and returns the rows in the
  order of \<^verbatim>\<open>orderBy\<close>. A cursor that is the key of no row of the list leaves no
  rows. The only ordering the resolvers ask for is \<^verbatim>\<open>orderBy: { createdAt: "desc" }\<close>;
  the storage engine is taken to be deterministic, and rows with equal keys stay in
  storage order.
\<close>

definition user_findUnique :: "db \<Rightarrow> string \<Rightarrow> User option" where
  "user_findUnique d i = find (\<lambda>u. user_id u = i) (users d)"

definition task_findUnique :: "db \<Rightarrow> string \<Rightarrow> Task option" where
  "task_findUnique d i = find (\<lambda>t. task_id t = i) (tasks d)"

definition include_user :: "db \<Rightarrow> Task \<Rightarrow> TaskWithUser" where
  "include_user d t = (t, user_findUnique d (userId t))"

definition orderBy_createdAt_desc :: "Task list \<Rightarrow> Task list" where
  "orderBy_createdAt_desc rows = sort_key (\<lambda>t. - createdAt t) rows"

definition task_where :: "db \<Rightarrow> string \<Rightarrow> Task list" where
  "task_where d uid = filter (\<lambda>t. userId t = uid) (tasks d)"

definition task_count :: "db \<Rightarrow> string \<Rightarrow> nat" where
  "task_count d uid = length (task_where d uid)"

definition task_findMany ::
  "db \<Rightarrow> string \<Rightarrow> int \<Rightarrow> string option \<Rightarrow> nat \<Rightarrow> Task list" where
  "task_findMany d uid tk cur sk =
     (let rows = orderBy_createdAt_desc (task_where d uid);
          dir = (if tk < 0 then rev rows else rows);
          positioned = (case cur of None \<Rightarrow> dir
                        | Some c \<Rightarrow> dropWhile (\<lambda>t. task_id t \<noteq> c) dir);
          taken = take (nat \<bar>tk\<bar>) (drop sk positioned)
      in if tk < 0 then rev taken else taken)"

text \<open>
  \<^verbatim>\<open>create\<close> appends the row; the primary key (\<^verbatim>\<open>@default(uuid())\<close>) and the clock
  (\<^verbatim>\<open>@default(now())\<close>, \<^verbatim>\<open>@updatedAt\<close>) are the arguments \<open>newId\<close> and \<open>now\<close>.
\<close>

definition task_create :: "db \<Rightarrow> string \<Rightarrow> int \<Rightarrow> string \<Rightarrow> string option \<Rightarrow> string \<Rightarrow> Task \<times> db" where
  "task_create d newId now ttl descr uid =
     (let t = \<lparr>task_id = newId, title = ttl, description = descr, completed = False,
               createdAt = now, updatedAt = now, userId = uid\<rparr>
      in (t, d\<lparr>tasks := tasks d @ [t]\<rparr>))"

text \<open>
  \<^verbatim>\<open>update\<close>. The ORM rejects \<^verbatim>\<open>null\<close> for the columns \<^verbatim>\<open>title\<close> and \<^verbatim>\<open>completed\<close>,
  which are not nullable; for \<^verbatim>\<open>description\<close> it stores \<^verbatim>\<open>NULL\<close>. A field that is left out
  keeps its column. With no field at all nothing is written and the row comes back as it
  is; otherwise the fields are written and \<^verbatim>\<open>updatedAt\<close> (\<^verbatim>\<open>@updatedAt\<close>) becomes the
  clock. The call raises when no row has the key.
\<close>

definition data_rejected :: "UpdateTaskInput \<Rightarrow> bool" where
  "data_rejected data = (ut_title data = Null \<or> ut_completed data = Null)"

definition data_empty :: "UpdateTaskInput \<Rightarrow> bool" where
  "data_empty data =
     (ut_title data = Absent \<and> ut_description data = Absent \<and> ut_completed data = Absent)"

definition apply_data :: "UpdateTaskInput \<Rightarrow> Task \<Rightarrow> Task" where
  "apply_data data t =
     t\<lparr>title := (case ut_title data of Given v \<Rightarrow> v | _ \<Rightarrow> title t),
       description := (case ut_description data of
                         Absent \<Rightarrow> description t | Null \<Rightarrow> None | Given v \<Rightarrow> Some v),
       completed := (case ut_completed data of Given v \<Rightarrow> v | _ \<Rightarrow> completed t)\<rparr>"

definition task_update ::
  "db \<Rightarrow> int \<Rightarrow> string \<Rightarrow> UpdateTaskInput \<Rightarrow> prisma_error + Task \<times> db" where
  "task_update d now i data =
     (if data_rejected data then Inl PrismaClientValidationError
      else (case task_findUnique d i of
              None \<Rightarrow> Inl RecordNotFound
            | Some t \<Rightarrow>
                if data_empty data then Inr (t, d)
                else (let t' = (apply_data data t)\<lparr>updatedAt := now\<rparr>
                      in Inr (t', d\<lparr>tasks := map (\<lambda>r. if task_id r = i then t' else r)
                                                 (tasks d)\<rparr>))))"

text \<open>\<^verbatim>\<open>delete\<close> removes the row and returns it; it raises when no row has the key.\<close>

definition task_delete :: "db \<Rightarrow> string \<Rightarrow> prisma_error + Task \<times> db" where
  "task_delete d i =
     (case task_findUnique d i of
        None \<Rightarrow> Inl RecordNotFound
      | Some t \<Rightarrow> Inr (t, d\<lparr>tasks := filter (\<lambda>r. task_id r \<noteq> i) (tasks d)\<rparr>))"

section \<open>JavaScript helpers\<close>

text \<open>
  A string argument is falsy when it is \<^verbatim>\<open>undefined\<close>, \<^verbatim>\<open>null\<close> (both \<open>None\<close>) or the
  empty string.
\<close>

definition truthy :: "string option \<Rightarrow> bool" where
  "truthy s = (case s of None \<Rightarrow> False | Some v \<Rightarrow> v \<noteq> [])"

text \<open>\<^verbatim>\<open>a || b\<close> on strings.\<close>

definition or_else :: "string option \<Rightarrow> string \<Rightarrow> string" where
  "or_else a b = (case a of None \<Rightarrow> b | Some v \<Rightarrow> if v = [] then b else v)"

text \<open>\<^verbatim>\<open>xs.slice(0, e)\<close>: a negative \<open>e\<close> counts from the end.\<close>

definition slice0 :: "'a list \<Rightarrow> int \<Rightarrow> 'a list" where
  "slice0 xs e = (if 0 \<le> e then take (nat e) xs else take (nat (int (length xs) + e)) xs)"

text \<open>The white space that \<^verbatim>\<open>trim\<close> removes, among the characters below 256.\<close>

definition is_space :: "char \<Rightarrow> bool" where
  "is_space c = (of_char c \<in> {9, 10, 11, 12, 13, 32, 160 :: nat})"

definition trim :: "string \<Rightarrow> string" where
  "trim s = rev (dropWhile is_space (rev (dropWhile is_space s)))"

text \<open>\<^verbatim>\<open>s.replace(pat, rep)\<close> with a string pattern: the first occurrence only.\<close>

fun replace_first :: "string \<Rightarrow> string \<Rightarrow> string \<Rightarrow> string" where
  "replace_first pat rep [] = (if pat = [] then rep else [])"
| "replace_first pat rep (c # cs) =
     (if take (length pat) (c # cs) = pat then rep @ drop (length pat) (c # cs)
      else c # replace_first pat rep cs)"

section \<open>Resolvers\<close>

definition requireAuth :: "Context \<Rightarrow> gql_error + User" where
  "requireAuth ctx =
     (case user ctx of
        None \<Rightarrow> Inl (AuthenticationError ''You must be logged in to perform this action'')
      | Some u \<Rightarrow> Inr u)"

text \<open>Query \<^verbatim>\<open>task\<close>: the context is an argument the resolver never reads.\<close>

definition task_query :: "db \<Rightarrow> string \<Rightarrow> Context \<Rightarrow> gql_error + TaskWithUser" where
  "task_query d i ctx =
     (case task_findUnique d i of
        None \<Rightarrow> Inl (NotFoundError ''Task not found'')
      | Some t \<Rightarrow> Inr (include_user d t))"

text \<open>
  Query \<^verbatim>\<open>tasksCursor\<close>. \<open>first_arg\<close> is \<open>None\<close> when the caller left \<^verbatim>\<open>first\<close> out
  (the default 10 applies); it is a GraphQL \<^verbatim>\<open>Int\<close>, so it can be negative. \<open>after\<close> and
  \<open>userId_arg\<close> are \<open>None\<close> when left out or \<^verbatim>\<open>null\<close>; the resolver tests both for
  truthiness, so it reads the empty string as absent too. The literal \<^verbatim>\<open>null\<close> for
  \<^verbatim>\<open>first\<close> is outside the model.
\<close>

definition edge_of :: "db \<Rightarrow> Task \<Rightarrow> TaskEdge" where
  "edge_of d t = \<lparr>cursor = task_id t, node = include_user d t\<rparr>"

definition tasksCursor ::
  "db \<Rightarrow> int option \<Rightarrow> string option \<Rightarrow> string option \<Rightarrow> Context \<Rightarrow> gql_error + TaskConnection" where
  "tasksCursor d first_arg after userId_arg ctx =
     (case requireAuth ctx of
        Inl e \<Rightarrow> Inl e
      | Inr currentUser \<Rightarrow>
          (let first = (case first_arg of None \<Rightarrow> 10 | Some n \<Rightarrow> n);
               targetUserId = or_else userId_arg (user_id currentUser);
               total = task_count d targetUserId;
               fetched = task_findMany d targetUserId (first + 1)
                           (if truthy after then after else None)
                           (if truthy after then 1 else 0);
               hasNext = (first < int (length fetched));
               es = map (edge_of d) (slice0 fetched first)
           in Inr \<lparr>edges = es,
                   pageInfo = \<lparr>hasNextPage = hasNext,
                               hasPreviousPage = truthy after,
                               startCursor = (case es of [] \<Rightarrow> None | e # _ \<Rightarrow> Some (cursor e)),
                               endCursor = (if es = [] then None else Some (cursor (last es)))\<rparr>,
                   totalCount = total\<rparr>))"

text \<open>
  The mutations return their result and the database after the call. \<^verbatim>\<open>createTask\<close>
  takes the fresh key and the clock of the ORM as arguments.
\<close>

definition createTask ::
  "db \<Rightarrow> string \<Rightarrow> int \<Rightarrow> CreateTaskInput \<Rightarrow> Context \<Rightarrow> (gql_error + TaskWithUser) \<times> db" where
  "createTask d newId now input ctx =
     (case requireAuth ctx of
        Inl e \<Rightarrow> (Inl e, d)
      | Inr u \<Rightarrow>
          if ct_title input = [] \<or> length (trim (ct_title input)) < 3
          then (Inl (ValidationError ''Title must be at least 3 characters''), d)
          else (case task_create d newId now (ct_title input) (ct_description input) (user_id u) of
                  (t, d') \<Rightarrow> (Inr (include_user d' t), d')))"

definition updateTask ::
  "db \<Rightarrow> int \<Rightarrow> string \<Rightarrow> UpdateTaskInput \<Rightarrow> Context \<Rightarrow> (gql_error + TaskWithUser) \<times> db" where
  "updateTask d now i input ctx =
     (case requireAuth ctx of
        Inl e \<Rightarrow> (Inl e, d)
      | Inr u \<Rightarrow>
          (case task_findUnique d i of
             None \<Rightarrow> (Inl (NotFoundError ''Task not found''), d)
           | Some existingTask \<Rightarrow>
               if userId existingTask \<noteq> user_id u
               then (Inl (ForbiddenError ''You can only update your own tasks''), d)
               else (case task_update d now i input of
                       Inl e \<Rightarrow> (Inl (PrismaClientError e), d)
                     | Inr (t, d') \<Rightarrow> (Inr (include_user d' t), d'))))"

definition deleteTask ::
  "db \<Rightarrow> string \<Rightarrow> Context \<Rightarrow> (gql_error + TaskWithUser) \<times> db" where
  "deleteTask d i ctx =
     (case requireAuth ctx of
        Inl e \<Rightarrow> (Inl e, d)
      | Inr u \<Rightarrow>
          (case task_findUnique d i of
             None \<Rightarrow> (Inl (NotFoundError ''Task not found''), d)
           | Some existingTask \<Rightarrow>
               if userId existingTask \<noteq> user_id u
               then (Inl (ForbiddenError ''You can only delete your own tasks''), d)
               else (case task_delete d i of
                       Inl e \<Rightarrow> (Inl (PrismaClientError e), d)
                     | Inr (t, d') \<Rightarrow> (Inr (include_user d' t), d'))))"

definition toggleTaskComplete ::
  "db \<Rightarrow> int \<Rightarrow> string \<Rightarrow> Context \<Rightarrow> (gql_error + TaskWithUser) \<times> db" where
  "toggleTaskComplete d now i ctx =
     (case requireAuth ctx of
        Inl e \<Rightarrow> (Inl e, d)
      | Inr u \<Rightarrow>
          (case task_findUnique d i of
             None \<Rightarrow> (Inl (NotFoundError ''Task not found''), d)
           | Some existingTask \<Rightarrow>
               if userId existingTask \<noteq> user_id u
               then (Inl (ForbiddenError ''You can only update your own tasks''), d)
               else (case task_update d now i
                            \<lparr>ut_title = Absent, ut_description = Absent,
                             ut_completed = Given (\<not> completed existingTask)\<rparr> of
                       Inl e \<Rightarrow> (Inl (PrismaClientError e), d)
                     | Inr (t, d') \<Rightarrow> (Inr (include_user d' t), d'))))"

section \<open>The identity resolver\<close>

text \<open>
  \<^verbatim>\<open>verifyToken\<close> of \<^verbatim>\<open>utils/auth.js\<close>, as the learning notes of the repository quote
  it, wraps \<^verbatim>\<open>jwt.verify(token, process.env.JWT_SECRET)\<close> of the jsonwebtoken library in
  \<^verbatim>\<open>try\<close>/\<^verbatim>\<open>catch\<close> and returns \<^verbatim>\<open>null\<close> when it raises. The library call is the
  argument \<open>jwt_verify\<close>: it returns the payload of a token that is well formed, signed
  with the secret and not expired, and raises otherwise. The payload that
  \<^verbatim>\<open>generateToken\<close> signs carries the user id.
\<close>

datatype jwt_error = JsonWebTokenError | TokenExpiredError | NotBeforeError

record JwtPayload =
  jwt_userId :: string
  iat :: int
  exp :: int

definition verifyToken :: "(string \<Rightarrow> jwt_error + JwtPayload) \<Rightarrow> string \<Rightarrow> JwtPayload option" where
  "verifyToken jwt_verify token =
     (case jwt_verify token of Inl e \<Rightarrow> None | Inr decoded \<Rightarrow> Some decoded)"

text \<open>\<^verbatim>\<open>getContext\<close>; \<open>authorization\<close> is the request header, \<open>None\<close> when there is none.\<close>

definition getContext ::
  "(string \<Rightarrow> jwt_error + JwtPayload) \<Rightarrow> db \<Rightarrow> string option \<Rightarrow> Context" where
  "getContext jwt_verify d authorization =
     (let authHeader = or_else authorization [];
          token = replace_first ''Bearer '' [] authHeader
      in if token = [] then \<lparr>user = None\<rparr>
         else (case verifyToken jwt_verify token of
                 None \<Rightarrow> \<lparr>user = None\<rparr>
               | Some decoded \<Rightarrow> \<lparr>user = user_findUnique d (jwt_userId decoded)\<rparr>))"

section \<open>The paginator of the specification\<close>

text \<open>
  The collection that \<^verbatim>\<open>tasksCursor\<close> pages over: the tasks of one owner in the order
  that \<^verbatim>\<open>findMany\<close> gives them (\<^verbatim>\<open>where\<close>, then \<^verbatim>\<open>orderBy\<close>).
\<close>

definition collection :: "db \<Rightarrow> string \<Rightarrow> Task list" where
  "collection d uid = orderBy_createdAt_desc (task_where d uid)"

text \<open>The items of a page: the task rows of its edges.\<close>

definition page_items :: "TaskConnection \<Rightarrow> Task list" where
  "page_items page = map (\<lambda>e. fst (node e)) (edges page)"

text \<open>
  The page as the specification words it, for comparison with the resolver: from the
  records \<open>rest\<close> that follow the position of the cursor (the whole collection when there
  is no cursor), fetch \<open>first + 1\<close>; \<open>hasNextPage\<close> says that the fetched length exceeds
  \<open>first\<close>; the items are the fetched records truncated to \<open>first\<close>; the cursors are the
  ids of the first and last item, absent on an empty page.
\<close>

definition spec_page :: "db \<Rightarrow> Task list \<Rightarrow> int \<Rightarrow> bool \<Rightarrow> nat \<Rightarrow> TaskConnection" where
  "spec_page d rest k prev n =
     (let fetched = take (nat (k + 1)) rest;
          items = take (nat k) fetched
      in \<lparr>edges = map (edge_of d) items,
          pageInfo = \<lparr>hasNextPage = (k < int (length fetched)),
                      hasPreviousPage = prev,
                      startCursor = (if items = [] then None else Some (task_id (hd items))),
                      endCursor = (if items = [] then None else Some (task_id (last items)))\<rparr>,
          totalCount = n\<rparr>)"

section \<open>Example data\<close>

text \<open>
  Two users and five tasks, used where a theorem is tried on a concrete input, and a token
  verifier that accepts two tokens: one of a stored user, one of a user that is not stored.
\<close>

definition alice :: User where
  "alice = \<lparr>user_id = ''u1'', name = ''Alice'', email = ''alice@example.com'', password = ''h1''\<rparr>"

definition bob :: User where
  "bob = \<lparr>user_id = ''u2'', name = ''Bob'', email = ''bob@example.com'', password = ''h2''\<rparr>"

definition mk_task :: "string \<Rightarrow> int \<Rightarrow> string \<Rightarrow> Task" where
  "mk_task i t u = \<lparr>task_id = i, title = ''task'', description = None, completed = False,
                     createdAt = t, updatedAt = t, userId = u\<rparr>"

definition db0 :: db where
  "db0 = \<lparr>users = [alice, bob],
          tasks = [mk_task ''t1'' 10 ''u1'', mk_task ''t2'' 20 ''u1'', mk_task ''t3'' 30 ''u2'',
                   mk_task ''t4'' 40 ''u1'', mk_task ''t5'' 50 ''u1'']\<rparr>"

definition db0_reordered :: db where
  "db0_reordered = \<lparr>users = [alice, bob],
          tasks = [mk_task ''t5'' 50 ''u1'', mk_task ''t3'' 30 ''u2'', mk_task ''t1'' 10 ''u1'',
                   mk_task ''t4'' 40 ''u1'', mk_task ''t2'' 20 ''u1'']\<rparr>"

definition jwt0 :: "string \<Rightarrow> jwt_error + JwtPayload" where
  "jwt0 token =
     (if token = ''alice.token'' then Inr \<lparr>jwt_userId = ''u1'', iat = 0, exp = 604800\<rparr>
      else if token = ''ghost.token'' then Inr \<lparr>jwt_userId = ''u9'', iat = 0, exp = 604800\<rparr>
      else if token = ''old.token'' then Inl TokenExpiredError
      else Inl JsonWebTokenError)"

section \<open>Storage lemmas\<close>

lemma find_stored:
  "distinct (map task_id xs) \<Longrightarrow> R \<in> set xs \<Longrightarrow> find (\<lambda>t. task_id t = task_id R) xs = Some R"
  by (induction xs) (auto simp: image_iff)

lemma task_findUnique_stored:
  "distinct (map task_id (tasks d)) \<Longrightarrow> R \<in> set (tasks d) \<Longrightarrow>
   task_findUnique d (task_id R) = Some R"
  by (simp add: task_findUnique_def find_stored)

lemma task_findUnique_Some:
  "task_findUnique d i = Some R \<Longrightarrow> R \<in> set (tasks d) \<and> task_id R = i"
  by (auto simp: task_findUnique_def find_Some_iff in_set_conv_nth)

lemma task_findUnique_None:
  "(task_findUnique d i = None) = (i \<notin> task_id ` set (tasks d))"
  by (auto simp: task_findUnique_def find_None_iff)

lemma find_after_update:
  "find (\<lambda>t. task_id t = i) xs = Some R \<Longrightarrow> task_id t' = i \<Longrightarrow>
   find (\<lambda>t. task_id t = i) (map (\<lambda>r. if task_id r = i then t' else r) xs) = Some t'"
  by (induction xs) (auto split: if_splits)

lemma find_after_delete:
  "find (\<lambda>t. task_id t = i) (filter (\<lambda>r. task_id r \<noteq> i) xs) = None"
  by (simp add: find_None_iff)

lemma requireAuth_Some: "user ctx = Some P \<Longrightarrow> requireAuth ctx = Inr P"
  by (simp add: requireAuth_def)

lemma task_id_apply_data [simp]: "task_id (apply_data data t) = task_id t"
  by (simp add: apply_data_def)

section \<open>The collection and the storage query\<close>

lemma set_collection: "set (collection d u) = {t \<in> set (tasks d). userId t = u}"
  by (auto simp: collection_def orderBy_createdAt_desc_def task_where_def)

lemma length_collection: "length (collection d u) = task_count d u"
  by (simp add: collection_def orderBy_createdAt_desc_def task_count_def)

lemma distinct_ids_collection:
  assumes "distinct (map task_id (tasks d))"
  shows "distinct (map task_id (collection d u))"
proof -
  have "distinct (map task_id (task_where d u))"
    using assms by (simp add: task_where_def distinct_map_filter)
  moreover have "mset (map task_id (collection d u)) = mset (map task_id (task_where d u))"
    by (simp add: collection_def orderBy_createdAt_desc_def)
  ultimately show ?thesis
    by (metis mset_eq_imp_distinct_iff)
qed

text \<open>With distinct keys, moving to the key of the \<open>i\<close>-th element drops \<open>i\<close> elements.\<close>

lemma dropWhile_index:
  "distinct (map f xs) \<Longrightarrow> i < length xs \<Longrightarrow> dropWhile (\<lambda>t. f t \<noteq> f (xs ! i)) xs = drop i xs"
proof (induction xs arbitrary: i)
  case Nil
  then show ?case by simp
next
  case (Cons x xs)
  show ?case
  proof (cases i)
    case 0
    then show ?thesis by simp
  next
    case (Suc j)
    with Cons.prems have j: "j < length xs" and d: "distinct (map f xs)"
      and nx: "f x \<notin> f ` set xs"
      by auto
    from j have "xs ! j \<in> set xs" by (rule nth_mem)
    with nx have "f (xs ! j) \<noteq> f x" by (metis imageI)
    with Cons.IH [of j] Suc j d show ?thesis by auto
  qed
qed

lemma dropWhile_unknown:
  "c \<notin> f ` set xs \<Longrightarrow> dropWhile (\<lambda>t. f t \<noteq> c) xs = []"
  by (induction xs) auto

lemma findMany_start:
  "0 \<le> tk \<Longrightarrow> task_findMany d u tk None 0 = take (nat tk) (collection d u)"
  by (simp add: task_findMany_def collection_def Let_def)

lemma findMany_after:
  assumes "0 \<le> tk" "distinct (map task_id (collection d u))" "i < length (collection d u)"
  shows "task_findMany d u tk (Some (task_id (collection d u ! i))) 1
           = take (nat tk) (drop (Suc i) (collection d u))"
  using assms dropWhile_index [of task_id "collection d u" i]
  by (simp add: task_findMany_def collection_def [symmetric] Let_def)

lemma findMany_unknown:
  assumes "c \<notin> task_id ` set (collection d u)"
  shows "task_findMany d u tk (Some c) sk = []"
proof -
  have fwd: "dropWhile (\<lambda>t. task_id t \<noteq> c) (collection d u) = []"
    using assms by (rule dropWhile_unknown)
  have bwd: "dropWhile (\<lambda>t. task_id t \<noteq> c) (rev (collection d u)) = []"
    using assms by (intro dropWhile_unknown) simp
  show ?thesis
    by (simp add: task_findMany_def collection_def [symmetric] Let_def fwd bwd)
qed

lemma length_findMany: "length (task_findMany d u tk cur sk) \<le> nat \<bar>tk\<bar>"
  by (simp add: task_findMany_def Let_def)

lemma set_findMany: "set (task_findMany d u tk cur sk) \<subseteq> set (collection d u)"
proof -
  have a: "set (take n (drop k (dropWhile Q xs))) \<subseteq> set xs" for n k Q and xs :: "Task list"
    by (meson set_take_subset set_drop_subset set_dropWhileD subsetI subset_trans in_mono)
  have b: "set (take n (drop k xs)) \<subseteq> set xs" for n k and xs :: "Task list"
    by (meson set_take_subset set_drop_subset subset_trans)
  show ?thesis
    using a [of _ _ _ "collection d u"] a [of _ _ _ "rev (collection d u)"]
      b [of _ _ "collection d u"] b [of _ _ "rev (collection d u)"]
    by (auto simp: task_findMany_def collection_def [symmetric] Let_def split: option.splits)
qed

lemma slice0_nonneg: "0 \<le> k \<Longrightarrow> slice0 xs k = take (nat k) xs"
  by (simp add: slice0_def)

lemma slice0_short: "k < 0 \<Longrightarrow> int (length xs) \<le> - k \<Longrightarrow> slice0 xs k = []"
  by (simp add: slice0_def)

lemma set_slice0: "set (slice0 xs k) \<subseteq> set xs"
  by (auto simp: slice0_def dest: in_set_takeD)

lemma last_take_min:
  assumes "take n xs \<noteq> []"
  shows "last (take n xs) = xs ! (min n (length xs) - 1)"
proof -
  have pos: "0 < min n (length xs)"
    using assms by auto
  have "last (take n xs) = take n xs ! (length (take n xs) - 1)"
    using assms by (rule last_conv_nth)
  also have "\<dots> = take n xs ! (min n (length xs) - 1)"
    by (simp add: min.commute)
  also have "\<dots> = xs ! (min n (length xs) - 1)"
    using pos by (intro nth_take) linarith
  finally show ?thesis .
qed

section \<open>The cursor paginator\<close>

lemma cursor_edge_of [simp]: "cursor (edge_of d t) = task_id t"
  by (simp add: edge_of_def)

lemma node_edge_of [simp]: "fst (node (edge_of d t)) = t"
  by (simp add: edge_of_def include_user_def)

lemma startCursor_edges:
  "(case map (edge_of d) items of [] \<Rightarrow> None | e # _ \<Rightarrow> Some (cursor e))
     = (if items = [] then None else Some (task_id (hd items)))"
  by (cases items) simp_all

lemma endCursor_edges:
  "(if map (edge_of d) items = [] then None else Some (cursor (last (map (edge_of d) items))))
     = (if items = [] then None else Some (task_id (last items)))"
  by (simp add: last_map)

lemma page_items_spec_page: "page_items (spec_page d rest k prev n) = take (nat k) rest"
proof -
  have "take (nat k) (take (nat (k + 1)) rest) = take (nat k) rest"
    by (simp add: min_def)
  then show ?thesis
    by (simp add: page_items_def spec_page_def Let_def comp_def)
qed

lemma endCursor_spec_page:
  "endCursor (pageInfo (spec_page d rest k prev n))
     = (if take (nat k) rest = [] then None else Some (task_id (last (take (nat k) rest))))"
proof -
  have "take (nat k) (take (nat (k + 1)) rest) = take (nat k) rest"
    by (simp add: min_def)
  then show ?thesis
    by (simp add: spec_page_def Let_def)
qed

lemma spec_page_negative:
  "k < 0 \<Longrightarrow> spec_page d rest k prev n
     = \<lparr>edges = [],
        pageInfo = \<lparr>hasNextPage = True, hasPreviousPage = prev,
                    startCursor = None, endCursor = None\<rparr>,
        totalCount = n\<rparr>"
  by (simp add: spec_page_def Let_def)

lemma tasksCursor_default:
  "tasksCursor d None after uid ctx = tasksCursor d (Some 10) after uid ctx"
  by (cases "requireAuth ctx") (simp_all add: tasksCursor_def)

lemma tasksCursor_spec_page:
  assumes "user ctx = Some P" and "0 \<le> k"
    and "task_findMany d (or_else uid (user_id P)) (k + 1)
           (if truthy after then after else None) (if truthy after then 1 else 0)
         = take (nat (k + 1)) rest"
  shows "tasksCursor d (Some k) after uid ctx
         = Inr (spec_page d rest k (truthy after)
                  (length (collection d (or_else uid (user_id P)))))"
  using assms(2)
  by (simp add: tasksCursor_def requireAuth_Some [OF assms(1)] assms(3) Let_def spec_page_def
      slice0_nonneg startCursor_edges endCursor_edges length_collection last_map)

text \<open>An empty fetch gives the empty page.\<close>

lemma tasksCursor_empty:
  assumes "user ctx = Some P"
    and "task_findMany d (or_else uid (user_id P))
           ((case first_arg of None \<Rightarrow> 10 | Some n \<Rightarrow> n) + 1)
           (if truthy after then after else None) (if truthy after then 1 else 0) = []"
  shows "tasksCursor d first_arg after uid ctx
         = Inr \<lparr>edges = [],
                pageInfo = \<lparr>hasNextPage = ((case first_arg of None \<Rightarrow> 10 | Some n \<Rightarrow> n) < 0),
                            hasPreviousPage = truthy after,
                            startCursor = None, endCursor = None\<rparr>,
                totalCount = length (collection d (or_else uid (user_id P)))\<rparr>"
  by (simp add: tasksCursor_def requireAuth_Some [OF assms(1)] assms(2) Let_def slice0_def
      length_collection)

text \<open>
  A negative \<open>first\<close> gives the empty page, whatever the backwards fetch returned: the
  fetch has at most \<open>- first - 1\<close> rows and \<^verbatim>\<open>slice(0, first)\<close> removes \<open>- first\<close> of them.
\<close>

lemma tasksCursor_negative:
  assumes "user ctx = Some P" and "k < 0"
  shows "tasksCursor d (Some k) after uid ctx
         = Inr \<lparr>edges = [],
                pageInfo = \<lparr>hasNextPage = True, hasPreviousPage = truthy after,
                            startCursor = None, endCursor = None\<rparr>,
                totalCount = length (collection d (or_else uid (user_id P)))\<rparr>"
proof -
  have "int (length (task_findMany d u (k + 1) cur sk)) \<le> - k" for u cur sk
    using length_findMany [of d u "k + 1" cur sk] assms(2) by linarith
  then have "slice0 (task_findMany d u (k + 1) cur sk) k = []" for u cur sk
    using assms(2) by (simp add: slice0_short)
  then show ?thesis
    using assms(2)
    by (simp add: tasksCursor_def requireAuth_Some [OF assms(1)] Let_def length_collection)
qed

lemma tasksCursor_refines_spec_page:
  assumes auth: "user ctx = Some P"
    and fetch: "0 \<le> k \<Longrightarrow>
         task_findMany d (or_else uid (user_id P)) (k + 1)
           (if truthy after then after else None) (if truthy after then 1 else 0)
         = take (nat (k + 1)) rest"
  shows "tasksCursor d (Some k) after uid ctx
         = Inr (spec_page d rest k (truthy after)
                  (length (collection d (or_else uid (user_id P)))))"
proof (cases "0 \<le> k")
  case True
  then show ?thesis
    using tasksCursor_spec_page [OF auth True fetch] by simp
next
  case False
  then have neg: "k < 0" by simp
  show ?thesis
    by (simp only: tasksCursor_negative [OF auth neg] spec_page_negative [OF neg])
qed

lemma tasksCursor_drawn_from:
  assumes "user ctx = Some P"
  shows "\<exists>page. tasksCursor d first_arg after uid ctx = Inr page
           \<and> set (map (fst \<circ> node) (edges page)) \<subseteq> set (collection d (or_else uid (user_id P)))
           \<and> totalCount page = length (collection d (or_else uid (user_id P)))"
proof -
  have "set (slice0 (task_findMany d u tk cur sk) e) \<subseteq> set (collection d u)" for u tk cur sk e
    using set_slice0 set_findMany by (rule subset_trans)
  then show ?thesis
    by (simp add: tasksCursor_def requireAuth_Some [OF assms] Let_def length_collection
        image_comp comp_def)
qed

text \<open>The first page and the page after its end cursor.\<close>

lemma two_pages:
  assumes auth: "user ctx = Some P"
    and ids: "distinct (map task_id (tasks d))"
    and ne: "[] \<notin> task_id ` set (tasks d)"
    and C: "C = collection d (or_else uid (user_id P))"
  shows "\<exists>page1 page2.
           tasksCursor d (Some k) None uid ctx = Inr page1
         \<and> tasksCursor d (Some k) (endCursor (pageInfo page1)) uid ctx = Inr page2
         \<and> page_items page1 = take (nat k) C
         \<and> page_items page2 = take (nat k) (drop (nat k) C)"
proof (cases "k < 0")
  case True
  show ?thesis
    using tasksCursor_negative [OF auth True, of d None uid] True
    by (simp add: page_items_def)
next
  case False
  then have k: "0 \<le> k" by simp
  let ?U = "or_else uid (user_id P)"
  have nt: "\<not> truthy None" by (simp add: truthy_def)
  have "task_findMany d ?U (k + 1) None 0 = take (nat (k + 1)) C"
    using k C by (simp add: findMany_start)
  then have p1: "tasksCursor d (Some k) None uid ctx = Inr (spec_page d C k False (length C))"
    using tasksCursor_spec_page [OF auth k, of d uid None C] nt C by simp
  show ?thesis
  proof (cases "take (nat k) C = []")
    case True
    then have "take (nat k) (drop (nat k) C) = []" by auto
    then show ?thesis
      by (simp add: p1 endCursor_spec_page page_items_spec_page True)
  next
    case nonempty: False
    define m where "m = min (nat k) (length C)"
    have m: "0 < m" "m \<le> length C"
      using nonempty by (auto simp: m_def)
    have lst: "last (take (nat k) C) = C ! (m - 1)"
      using nonempty by (simp add: last_take_min m_def)
    have mem: "C ! (m - 1) \<in> set (tasks d)"
    proof -
      have "C ! (m - 1) \<in> set C" using m by simp
      then show ?thesis using C by (simp add: set_collection)
    qed
    have idne: "task_id (C ! (m - 1)) \<noteq> []"
      using mem ne by force
    have t: "truthy (Some (task_id (C ! (m - 1))))"
      using idne by (simp add: truthy_def)
    have dC: "distinct (map task_id C)"
      using ids C by (simp add: distinct_ids_collection)
    have "task_findMany d ?U (k + 1) (Some (task_id (C ! (m - 1)))) 1
            = take (nat (k + 1)) (drop (Suc (m - 1)) C)"
      using findMany_after [of "k + 1" d ?U "m - 1"] k C dC m by simp
    then have p2: "tasksCursor d (Some k) (Some (task_id (C ! (m - 1)))) uid ctx
                     = Inr (spec_page d (drop m C) k True (length C))"
      using tasksCursor_spec_page [OF auth k, of d uid "Some (task_id (C ! (m - 1)))" "drop m C"]
        t C m by simp
    have dr: "take (nat k) (drop m C) = take (nat k) (drop (nat k) C)"
      by (cases "nat k \<le> length C") (simp_all add: m_def min_def)
    have ec: "endCursor (pageInfo (spec_page d C k False (length C)))
                = Some (task_id (C ! (m - 1)))"
      using nonempty lst by (simp only: endCursor_spec_page if_False)
    have i1: "page_items (spec_page d C k False (length C)) = take (nat k) C"
      by (rule page_items_spec_page)
    have i2: "page_items (spec_page d (drop m C) k True (length C))
                = take (nat k) (drop (nat k) C)"
      using dr by (simp only: page_items_spec_page)
    from p1 p2 [folded ec] i1 i2 show ?thesis
      by blast
  qed
qed

text \<open>The example collection: the four tasks of the first user, newest first.\<close>

lemma collection_db0:
  "collection db0 ''u1''
     = [mk_task ''t5'' 50 ''u1'', mk_task ''t4'' 40 ''u1'', mk_task ''t2'' 20 ''u1'',
        mk_task ''t1'' 10 ''u1'']"
  by (simp add: collection_def orderBy_createdAt_desc_def task_where_def db0_def mk_task_def)

lemma distinct_ids_db0: "distinct (map task_id (tasks db0))"
  by (simp add: db0_def mk_task_def)

lemma nonempty_ids_db0: "[] \<notin> task_id ` set (tasks db0)"
  by (simp add: db0_def mk_task_def)

lemma target_alice: "or_else None (user_id alice) = ''u1''"
  by (simp add: or_else_def alice_def)

text \<open>
  Claim C1 as stated fails for the empty string: a caller that supplies \<^verbatim>\<open>after: ""\<close> gets
  the first page and \<open>hasPreviousPage = False\<close>, since \<^verbatim>\<open>after && { ... }\<close> and
  \<^verbatim>\<open>!!after\<close> read the empty string as no cursor.
\<close>

theorem C1_empty_cursor_counterexample:
  "tasksCursor db0 (Some 2) (Some []) None \<lparr>user = Some alice\<rparr>
     = Inr \<lparr>edges = [\<lparr>cursor = ''t5'', node = (mk_task ''t5'' 50 ''u1'', Some alice)\<rparr>,
                     \<lparr>cursor = ''t4'', node = (mk_task ''t4'' 40 ''u1'', Some alice)\<rparr>],
            pageInfo = \<lparr>hasNextPage = True, hasPreviousPage = False,
                        startCursor = Some ''t5'', endCursor = Some ''t4''\<rparr>,
            totalCount = 4\<rparr>"
  by (simp add: tasksCursor_def requireAuth_def or_else_def truthy_def task_count_def
      task_findMany_def task_where_def orderBy_createdAt_desc_def slice0_def edge_of_def
      include_user_def user_findUnique_def db0_def mk_task_def alice_def bob_def Let_def)

text \<open>
  Claim C1, amended. Let \<open>C\<close> be the collection of the target user, newest first. For
  every page size \<open>k\<close>: when \<open>after\<close> is absent or the empty string, \<^verbatim>\<open>tasksCursor\<close>
  returns the page that the specification builds from the start of \<open>C\<close>, with
  \<open>hasPreviousPage = False\<close>; when \<open>after\<close> is the non-empty id of the record at position
  \<open>i\<close> of \<open>C\<close>, it returns the page that the specification builds from the records
  immediately after position \<open>i\<close>, with \<open>hasPreviousPage = True\<close>. In that page
  \<open>hasNextPage\<close> holds exactly when the fetched length exceeds \<open>k\<close> and the items are the
  fetched records truncated to \<open>k\<close>. For \<open>0 \<le> k\<close> the storage query itself returns the
  \<open>k + 1\<close> records from that position.
\<close>

theorem C1_tasksCursor_page:
  assumes "user ctx = Some P"
    and "distinct (map task_id (tasks d))"
    and "C = collection d (or_else uid (user_id P))"
  shows "(\<not> truthy after \<longrightarrow>
            tasksCursor d (Some k) after uid ctx = Inr (spec_page d C k False (length C))
          \<and> (0 \<le> k \<longrightarrow> task_findMany d (or_else uid (user_id P)) (k + 1) None 0
                          = take (nat (k + 1)) C))
       \<and> (\<forall>i < length C. after = Some (task_id (C ! i)) \<and> task_id (C ! i) \<noteq> [] \<longrightarrow>
            tasksCursor d (Some k) after uid ctx
              = Inr (spec_page d (drop (Suc i) C) k True (length C))
          \<and> (0 \<le> k \<longrightarrow> task_findMany d (or_else uid (user_id P)) (k + 1) after 1
                          = take (nat (k + 1)) (drop (Suc i) C)))"
proof (intro conjI allI impI)
  assume f: "\<not> truthy after"
  have fetch: "task_findMany d (or_else uid (user_id P)) (k + 1) None 0 = take (nat (k + 1)) C"
    if "0 \<le> k"
    using that assms(3) by (simp add: findMany_start)
  show "tasksCursor d (Some k) after uid ctx = Inr (spec_page d C k False (length C))"
    using tasksCursor_refines_spec_page [OF assms(1), of k d uid after C] fetch f assms(3)
    by simp
  show "task_findMany d (or_else uid (user_id P)) (k + 1) None 0 = take (nat (k + 1)) C"
    if "0 \<le> k"
    using that by (rule fetch)
next
  fix i
  assume i: "i < length C" and a: "after = Some (task_id (C ! i)) \<and> task_id (C ! i) \<noteq> []"
  have t: "truthy after" using a by (simp add: truthy_def)
  have dC: "distinct (map task_id C)"
    using assms(2,3) by (simp add: distinct_ids_collection)
  have fetch: "task_findMany d (or_else uid (user_id P)) (k + 1) after 1
                 = take (nat (k + 1)) (drop (Suc i) C)"
    if "0 \<le> k"
    using findMany_after [of "k + 1" d "or_else uid (user_id P)" i] that assms(3) dC i a by simp
  show "tasksCursor d (Some k) after uid ctx
          = Inr (spec_page d (drop (Suc i) C) k True (length C))"
    using tasksCursor_refines_spec_page [OF assms(1), of k d uid after "drop (Suc i) C"]
      fetch t assms(3)
    by simp
  show "task_findMany d (or_else uid (user_id P)) (k + 1) after 1
          = take (nat (k + 1)) (drop (Suc i) C)"
    if "0 \<le> k"
    using that by (rule fetch)
qed

theorem C1_tasksCursor_page_witness:
  "user \<lparr>user = Some alice\<rparr> = Some alice
   \<and> distinct (map task_id (tasks db0))
   \<and> (1::nat) < length (collection db0 ''u1'')
   \<and> Some ''t4'' = Some (task_id (collection db0 ''u1'' ! 1))
   \<and> tasksCursor db0 (Some 2) (Some ''t4'') None \<lparr>user = Some alice\<rparr>
       = Inr (spec_page db0 [mk_task ''t2'' 20 ''u1'', mk_task ''t1'' 10 ''u1''] 2 True 4)
   \<and> task_findMany db0 ''u1'' 3 (Some ''t4'') 1
       = [mk_task ''t2'' 20 ''u1'', mk_task ''t1'' 10 ''u1'']
   \<and> tasksCursor db0 (Some 2) None None \<lparr>user = Some alice\<rparr>
       = Inr (spec_page db0 (collection db0 ''u1'') 2 False 4)"
proof -
  have h1: "user \<lparr>user = Some alice\<rparr> = Some alice" by simp
  have L: "length (collection db0 ''u1'') = 4"
    by (simp add: collection_db0)
  have D: "drop (Suc 1) (collection db0 ''u1'')
             = [mk_task ''t2'' 20 ''u1'', mk_task ''t1'' 10 ''u1'']"
    by (simp add: collection_db0)
  have len: "(1::nat) < length (collection db0 ''u1'')"
    by (simp add: L)
  have at: "Some ''t4'' = Some (task_id (collection db0 ''u1'' ! 1))"
    by (simp add: collection_db0 mk_task_def)
  have nt: "\<not> truthy None" by (simp add: truthy_def)
  note T = C1_tasksCursor_page [OF h1 distinct_ids_db0 refl, where uid = None and k = 2,
      unfolded target_alice]
  have start: "tasksCursor db0 (Some 2) None None \<lparr>user = Some alice\<rparr>
                 = Inr (spec_page db0 (collection db0 ''u1'') 2 False
                          (length (collection db0 ''u1'')))"
    using T [where after = None] nt by blast
  have "Some ''t4'' = Some (task_id (collection db0 ''u1'' ! 1))
          \<and> task_id (collection db0 ''u1'' ! 1) \<noteq> []"
    by (simp add: collection_db0 mk_task_def)
  then have resume:
    "tasksCursor db0 (Some 2) (Some ''t4'') None \<lparr>user = Some alice\<rparr>
       = Inr (spec_page db0 (drop (Suc 1) (collection db0 ''u1'')) 2 True
                (length (collection db0 ''u1'')))
     \<and> ((0::int) \<le> 2 \<longrightarrow> task_findMany db0 ''u1'' (2 + 1) (Some ''t4'') 1
          = take (nat (2 + 1)) (drop (Suc 1) (collection db0 ''u1'')))"
    using T [where after = "Some ''t4''"] len by blast
  have page: "tasksCursor db0 (Some 2) (Some ''t4'') None \<lparr>user = Some alice\<rparr>
       = Inr (spec_page db0 [mk_task ''t2'' 20 ''u1'', mk_task ''t1'' 10 ''u1''] 2 True 4)"
    using resume by (simp only: L D)
  have fetch: "task_findMany db0 ''u1'' 3 (Some ''t4'') 1
                 = [mk_task ''t2'' 20 ''u1'', mk_task ''t1'' 10 ''u1'']"
    using resume by (simp add: collection_db0)
  have start4: "tasksCursor db0 (Some 2) None None \<lparr>user = Some alice\<rparr>
                  = Inr (spec_page db0 (collection db0 ''u1'') 2 False 4)"
    using start by (simp only: L)
  from h1 distinct_ids_db0 len at page fetch start4 show ?thesis
    by (intro conjI)
qed

text \<open>
  Claim C2. Let the collection \<open>C\<close> of the target user be unchanged, with record ids that
  are distinct and non-empty (they are the primary key, a UUID) and with pairwise distinct
  creation timestamps. For every page size \<open>k\<close>, \<^verbatim>\<open>tasksCursor\<close> with \<open>first = k\<close> and
  no cursor returns a page, \<^verbatim>\<open>tasksCursor\<close> with \<open>first = k\<close> and \<open>after\<close> the end cursor
  of that page returns a second page, the items of the two pages are disjoint, their
  concatenation is the first \<open>2 k\<close> items of \<open>C\<close> (all of \<open>C\<close> when it is shorter) in order,
  and no id occurs twice in it.
\<close>

theorem C2_two_pages_partition:
  assumes "user ctx = Some P"
    and "distinct (map task_id (tasks d))"
    and "[] \<notin> task_id ` set (tasks d)"
    and "C = collection d (or_else uid (user_id P))"
    and "distinct (map createdAt C)"
  shows "\<exists>page1 page2.
           tasksCursor d (Some k) None uid ctx = Inr page1
         \<and> tasksCursor d (Some k) (endCursor (pageInfo page1)) uid ctx = Inr page2
         \<and> page_items page1 @ page_items page2 = take (nat (2 * k)) C
         \<and> set (page_items page1) \<inter> set (page_items page2) = {}
         \<and> distinct (map task_id (page_items page1 @ page_items page2))"
proof -
  obtain page1 page2 where
    p1: "tasksCursor d (Some k) None uid ctx = Inr page1" and
    p2: "tasksCursor d (Some k) (endCursor (pageInfo page1)) uid ctx = Inr page2" and
    i1: "page_items page1 = take (nat k) C" and
    i2: "page_items page2 = take (nat k) (drop (nat k) C)"
    using two_pages [OF assms(1-4)] by blast
  have "nat (2 * k) = nat k + nat k" by simp
  then have cat: "page_items page1 @ page_items page2 = take (nat (2 * k)) C"
    using i1 i2 by (simp only: take_add)
  have "distinct (map task_id C)"
    using assms(2,4) by (simp add: distinct_ids_collection)
  then have "distinct (take (nat (2 * k)) (map task_id C))"
    by (rule distinct_take)
  then have dis: "distinct (map task_id (page_items page1 @ page_items page2))"
    by (simp only: cat take_map)
  then have "distinct (page_items page1 @ page_items page2)"
    by (simp only: distinct_map)
  then have "set (page_items page1) \<inter> set (page_items page2) = {}"
    by simp
  with p1 p2 cat dis show ?thesis by blast
qed

theorem C2_two_pages_witness:
  "user \<lparr>user = Some alice\<rparr> = Some alice
   \<and> distinct (map task_id (tasks db0))
   \<and> [] \<notin> task_id ` set (tasks db0)
   \<and> distinct (map createdAt (collection db0 ''u1''))
   \<and> (\<exists>page1 page2.
           tasksCursor db0 (Some 1) None None \<lparr>user = Some alice\<rparr> = Inr page1
         \<and> tasksCursor db0 (Some 1) (endCursor (pageInfo page1)) None \<lparr>user = Some alice\<rparr>
             = Inr page2
         \<and> page_items page1 @ page_items page2
             = [mk_task ''t5'' 50 ''u1'', mk_task ''t4'' 40 ''u1''])"
proof -
  have h1: "user \<lparr>user = Some alice\<rparr> = Some alice" by simp
  have h5: "distinct (map createdAt (collection db0 ''u1''))"
    by (simp add: collection_db0 mk_task_def)
  have tk: "take (nat (2 * 1)) (collection db0 ''u1'')
              = [mk_task ''t5'' 50 ''u1'', mk_task ''t4'' 40 ''u1'']"
    by (simp add: collection_db0)
  note T = C2_two_pages_partition [OF h1 distinct_ids_db0 nonempty_ids_db0 refl,
      where uid = None and k = 1, unfolded target_alice, OF h5, unfolded tk]
  have "\<exists>page1 page2.
           tasksCursor db0 (Some 1) None None \<lparr>user = Some alice\<rparr> = Inr page1
         \<and> tasksCursor db0 (Some 1) (endCursor (pageInfo page1)) None \<lparr>user = Some alice\<rparr>
             = Inr page2
         \<and> page_items page1 @ page_items page2
             = [mk_task ''t5'' 50 ''u1'', mk_task ''t4'' 40 ''u1'']"
    using T by blast
  then show ?thesis
    using h1 distinct_ids_db0 nonempty_ids_db0 h5 by blast
qed

text \<open>
  Claim C3 as stated fails: no resolver raises an invalid-cursor error. A cursor that
  matches no record gives an empty page.
\<close>

theorem C3_unknown_cursor_counterexample:
  "tasksCursor db0 (Some 2) (Some ''zz'') None \<lparr>user = Some alice\<rparr>
     = Inr \<lparr>edges = [],
            pageInfo = \<lparr>hasNextPage = False, hasPreviousPage = True,
                        startCursor = None, endCursor = None\<rparr>,
            totalCount = 4\<rparr>"
  by (simp add: tasksCursor_def requireAuth_def or_else_def truthy_def task_count_def
      task_findMany_def task_where_def orderBy_createdAt_desc_def slice0_def edge_of_def
      include_user_def user_findUnique_def db0_def mk_task_def alice_def bob_def Let_def)

text \<open>
  Claim C3, amended. For every collection and every supplied, non-empty cursor that is
  the id of no record of the collection, \<^verbatim>\<open>tasksCursor\<close> does not fail: it returns the
  empty page, with no items, both cursors absent, \<open>hasPreviousPage = True\<close>,
  \<open>hasNextPage = False\<close> for a page size that is not negative, and \<open>totalCount\<close> the size
  of the collection.
\<close>

theorem C3_unknown_cursor_empty_page:
  assumes "user ctx = Some P" and "c \<noteq> []"
    and "c \<notin> task_id ` set (collection d (or_else uid (user_id P)))"
  shows "tasksCursor d first_arg (Some c) uid ctx
         = Inr \<lparr>edges = [],
                pageInfo = \<lparr>hasNextPage = ((case first_arg of None \<Rightarrow> 10 | Some n \<Rightarrow> n) < 0),
                            hasPreviousPage = True,
                            startCursor = None, endCursor = None\<rparr>,
                totalCount = length (collection d (or_else uid (user_id P)))\<rparr>"
proof -
  have t: "truthy (Some c)" using assms(2) by (simp add: truthy_def)
  have "task_findMany d (or_else uid (user_id P))
          ((case first_arg of None \<Rightarrow> 10 | Some n \<Rightarrow> n) + 1) (Some c) 1 = []"
    using assms(3) by (rule findMany_unknown)
  then show ?thesis
    using tasksCursor_empty [OF assms(1), of d uid first_arg "Some c"] t by simp
qed

theorem C3_unknown_cursor_witness:
  "user \<lparr>user = Some bob\<rparr> = Some bob
   \<and> ''t9'' \<noteq> []
   \<and> ''t9'' \<notin> task_id ` set (collection db0 ''u1'')
   \<and> tasksCursor db0 None (Some ''t9'') (Some ''u1'') \<lparr>user = Some bob\<rparr>
       = Inr \<lparr>edges = [],
              pageInfo = \<lparr>hasNextPage = False, hasPreviousPage = True,
                          startCursor = None, endCursor = None\<rparr>,
              totalCount = 4\<rparr>"
proof -
  have h1: "user \<lparr>user = Some bob\<rparr> = Some bob" by simp
  have h2: "''t9'' \<noteq> []" by simp
  have tg: "or_else (Some ''u1'') (user_id bob) = ''u1''" by (simp add: or_else_def)
  have h3: "''t9'' \<notin> task_id ` set (collection db0 ''u1'')"
    by (simp add: collection_db0 mk_task_def)
  have h3': "''t9'' \<notin> task_id ` set (collection db0 (or_else (Some ''u1'') (user_id bob)))"
    unfolding tg by (rule h3)
  have L: "length (collection db0 ''u1'') = 4"
    by (simp add: collection_db0)
  note T = C3_unknown_cursor_empty_page [OF h1 h2 h3', where first_arg = None, unfolded tg L]
  have page: "tasksCursor db0 None (Some ''t9'') (Some ''u1'') \<lparr>user = Some bob\<rparr>
       = Inr \<lparr>edges = [],
              pageInfo = \<lparr>hasNextPage = False, hasPreviousPage = True,
                          startCursor = None, endCursor = None\<rparr>,
              totalCount = 4\<rparr>"
    using T by simp
  from h1 h2 h3 page show ?thesis
    by (intro conjI)
qed

section \<open>The guarded mutations\<close>

lemma forbidden_update:
  "user ctx = Some P \<Longrightarrow> task_findUnique d i = Some R \<Longrightarrow> userId R \<noteq> user_id P \<Longrightarrow>
   updateTask d now i input ctx = (Inl (ForbiddenError ''You can only update your own tasks''), d)"
  by (simp add: updateTask_def requireAuth_Some)

lemma forbidden_delete:
  "user ctx = Some P \<Longrightarrow> task_findUnique d i = Some R \<Longrightarrow> userId R \<noteq> user_id P \<Longrightarrow>
   deleteTask d i ctx = (Inl (ForbiddenError ''You can only delete your own tasks''), d)"
  by (simp add: deleteTask_def requireAuth_Some)

lemma forbidden_toggle:
  "user ctx = Some P \<Longrightarrow> task_findUnique d i = Some R \<Longrightarrow> userId R \<noteq> user_id P \<Longrightarrow>
   toggleTaskComplete d now i ctx
     = (Inl (ForbiddenError ''You can only update your own tasks''), d)"
  by (simp add: toggleTaskComplete_def requireAuth_Some)

lemma notfound_update:
  "user ctx = Some P \<Longrightarrow> task_findUnique d i = None \<Longrightarrow>
   updateTask d now i input ctx = (Inl (NotFoundError ''Task not found''), d)"
  by (simp add: updateTask_def requireAuth_Some)

lemma notfound_delete:
  "user ctx = Some P \<Longrightarrow> task_findUnique d i = None \<Longrightarrow>
   deleteTask d i ctx = (Inl (NotFoundError ''Task not found''), d)"
  by (simp add: deleteTask_def requireAuth_Some)

lemma notfound_toggle:
  "user ctx = Some P \<Longrightarrow> task_findUnique d i = None \<Longrightarrow>
   toggleTaskComplete d now i ctx = (Inl (NotFoundError ''Task not found''), d)"
  by (simp add: toggleTaskComplete_def requireAuth_Some)

lemma rejected_update:
  assumes "user ctx = Some P" "task_findUnique d i = Some R" "userId R = user_id P"
    and "ut_title input = Null \<or> ut_completed input = Null"
  shows "updateTask d now i input ctx
           = (Inl (PrismaClientError PrismaClientValidationError), d)"
  using assms
  by (simp add: updateTask_def requireAuth_Some task_update_def data_rejected_def)

lemma empty_update:
  assumes "user ctx = Some P" "task_findUnique d i = Some R" "userId R = user_id P"
    and "ut_title input = Absent" "ut_description input = Absent" "ut_completed input = Absent"
  shows "updateTask d now i input ctx = (Inr (R, user_findUnique d (user_id P)), d)"
  using assms
  by (simp add: updateTask_def requireAuth_Some task_update_def data_rejected_def
      data_empty_def include_user_def)

lemma owner_update:
  assumes "user ctx = Some P" "task_findUnique d i = Some R" "userId R = user_id P"
    and "ut_title input \<noteq> Null" "ut_completed input \<noteq> Null"
    and "\<not> (ut_title input = Absent \<and> ut_description input = Absent
             \<and> ut_completed input = Absent)"
    and "R' = R\<lparr>title := (case ut_title input of Given v \<Rightarrow> v | _ \<Rightarrow> title R),
                 description := (case ut_description input of
                                   Absent \<Rightarrow> description R | Null \<Rightarrow> None
                                 | Given v \<Rightarrow> Some v),
                 completed := (case ut_completed input of Given v \<Rightarrow> v | _ \<Rightarrow> completed R),
                 updatedAt := now\<rparr>"
  shows "updateTask d now i input ctx
           = (Inr (R', user_findUnique d (user_id P)),
              d\<lparr>tasks := map (\<lambda>r. if task_id r = i then R' else r) (tasks d)\<rparr>)"
    and "task_findUnique (snd (updateTask d now i input ctx)) i = Some R'"
proof -
  have idR: "task_id R = i"
    using task_findUnique_Some [OF assms(2)] by simp
  have eq: "(apply_data input R)\<lparr>updatedAt := now\<rparr> = R'"
    by (simp add: apply_data_def assms(7))
  have nr: "\<not> data_rejected input"
    using assms(4,5) by (simp add: data_rejected_def)
  have ne: "\<not> data_empty input"
    using assms(6) by (simp add: data_empty_def)
  have upd: "task_update d now i input
               = Inr (R', d\<lparr>tasks := map (\<lambda>r. if task_id r = i then R' else r) (tasks d)\<rparr>)"
    by (simp add: task_update_def nr ne assms(2) eq Let_def)
  have uid: "userId R' = user_id P"
    using assms(3) by (simp add: assms(7))
  show res: "updateTask d now i input ctx
           = (Inr (R', user_findUnique d (user_id P)),
              d\<lparr>tasks := map (\<lambda>r. if task_id r = i then R' else r) (tasks d)\<rparr>)"
    using assms(1,2,3) uid
    by (simp add: updateTask_def requireAuth_Some upd include_user_def user_findUnique_def)
  have "task_id R' = i"
    using idR by (simp add: assms(7))
  then show "task_findUnique (snd (updateTask d now i input ctx)) i = Some R'"
    using assms(2) by (simp add: res task_findUnique_def find_after_update)
qed

lemma owner_toggle:
  assumes "user ctx = Some P" "task_findUnique d i = Some R" "userId R = user_id P"
    and "R' = R\<lparr>completed := \<not> completed R, updatedAt := now\<rparr>"
  shows "toggleTaskComplete d now i ctx
           = (Inr (R', user_findUnique d (user_id P)),
              d\<lparr>tasks := map (\<lambda>r. if task_id r = i then R' else r) (tasks d)\<rparr>)"
    and "task_findUnique (snd (toggleTaskComplete d now i ctx)) i = Some R'"
proof -
  have idR: "task_id R = i"
    using task_findUnique_Some [OF assms(2)] by simp
  have upd: "task_update d now i
               \<lparr>ut_title = Absent, ut_description = Absent,
                ut_completed = Given (\<not> completed R)\<rparr>
               = Inr (R', d\<lparr>tasks := map (\<lambda>r. if task_id r = i then R' else r) (tasks d)\<rparr>)"
    using assms(2)
    by (simp add: task_update_def data_rejected_def data_empty_def apply_data_def Let_def
        assms(4))
  have uid: "userId R' = user_id P"
    using assms(3) by (simp add: assms(4))
  show res: "toggleTaskComplete d now i ctx
           = (Inr (R', user_findUnique d (user_id P)),
              d\<lparr>tasks := map (\<lambda>r. if task_id r = i then R' else r) (tasks d)\<rparr>)"
    using assms(1,2,3) uid
    by (simp add: toggleTaskComplete_def requireAuth_Some upd include_user_def
        user_findUnique_def)
  have "task_id R' = i"
    using idR by (simp add: assms(4))
  then show "task_findUnique (snd (toggleTaskComplete d now i ctx)) i = Some R'"
    using assms(2) by (simp add: res task_findUnique_def find_after_update)
qed

lemma owner_delete:
  assumes "user ctx = Some P" "task_findUnique d i = Some R" "userId R = user_id P"
  shows "deleteTask d i ctx
           = (Inr (R, user_findUnique d (user_id P)),
              d\<lparr>tasks := filter (\<lambda>r. task_id r \<noteq> i) (tasks d)\<rparr>)"
    and "task_findUnique (snd (deleteTask d i ctx)) i = None"
    and "deleteTask (snd (deleteTask d i ctx)) i ctx
           = (Inl (NotFoundError ''Task not found''), snd (deleteTask d i ctx))"
proof -
  show res: "deleteTask d i ctx
           = (Inr (R, user_findUnique d (user_id P)),
              d\<lparr>tasks := filter (\<lambda>r. task_id r \<noteq> i) (tasks d)\<rparr>)"
    using assms
    by (simp add: deleteTask_def requireAuth_Some task_delete_def include_user_def
        user_findUnique_def)
  show gone: "task_findUnique (snd (deleteTask d i ctx)) i = None"
    by (simp add: res task_findUnique_def find_after_delete)
  show "deleteTask (snd (deleteTask d i ctx)) i ctx
           = (Inl (NotFoundError ''Task not found''), snd (deleteTask d i ctx))"
    using assms(1) gone by (rule notfound_delete)
qed

text \<open>
  Claim C4. For every stored record \<open>R\<close> and every authenticated principal \<open>P\<close> whose id is
  not the owner of \<open>R\<close>, each of \<^verbatim>\<open>updateTask\<close>, \<^verbatim>\<open>deleteTask\<close> and
  \<^verbatim>\<open>toggleTaskComplete\<close> on the id of \<open>R\<close> fails with the ownership error
  (\<^verbatim>\<open>ForbiddenError\<close>) and returns the database as it was: no row, so no field of \<open>R\<close>, is
  changed, and \<open>R\<close> is still the row found under its id.
\<close>

theorem C4_ownership_violation_leaves_record:
  assumes "user ctx = Some P"
    and "distinct (map task_id (tasks d))"
    and "R \<in> set (tasks d)"
    and "user_id P \<noteq> userId R"
  shows "updateTask d now (task_id R) input ctx
           = (Inl (ForbiddenError ''You can only update your own tasks''), d)
       \<and> deleteTask d (task_id R) ctx
           = (Inl (ForbiddenError ''You can only delete your own tasks''), d)
       \<and> toggleTaskComplete d now (task_id R) ctx
           = (Inl (ForbiddenError ''You can only update your own tasks''), d)
       \<and> task_findUnique (snd (updateTask d now (task_id R) input ctx)) (task_id R) = Some R
       \<and> task_findUnique (snd (deleteTask d (task_id R) ctx)) (task_id R) = Some R
       \<and> task_findUnique (snd (toggleTaskComplete d now (task_id R) ctx)) (task_id R) = Some R"
proof -
  have found: "task_findUnique d (task_id R) = Some R"
    using assms(2,3) by (rule task_findUnique_stored)
  have other: "userId R \<noteq> user_id P"
    using assms(4) by simp
  have u: "updateTask d now (task_id R) input ctx
             = (Inl (ForbiddenError ''You can only update your own tasks''), d)"
    using assms(1) found other by (rule forbidden_update)
  have del: "deleteTask d (task_id R) ctx
             = (Inl (ForbiddenError ''You can only delete your own tasks''), d)"
    using assms(1) found other by (rule forbidden_delete)
  have tg: "toggleTaskComplete d now (task_id R) ctx
             = (Inl (ForbiddenError ''You can only update your own tasks''), d)"
    using assms(1) found other by (rule forbidden_toggle)
  show ?thesis
    by (simp add: u del tg found)
qed

theorem C4_ownership_violation_witness:
  "user \<lparr>user = Some bob\<rparr> = Some bob
   \<and> distinct (map task_id (tasks db0))
   \<and> mk_task ''t2'' 20 ''u1'' \<in> set (tasks db0)
   \<and> user_id bob \<noteq> userId (mk_task ''t2'' 20 ''u1'')
   \<and> updateTask db0 99 ''t2'' \<lparr>ut_title = Given ''mine'', ut_description = Absent, ut_completed = Given True\<rparr>
        \<lparr>user = Some bob\<rparr>
       = (Inl (ForbiddenError ''You can only update your own tasks''), db0)
   \<and> deleteTask db0 ''t2'' \<lparr>user = Some bob\<rparr>
       = (Inl (ForbiddenError ''You can only delete your own tasks''), db0)
   \<and> toggleTaskComplete db0 99 ''t2'' \<lparr>user = Some bob\<rparr>
       = (Inl (ForbiddenError ''You can only update your own tasks''), db0)
   \<and> task_findUnique db0 ''t2'' = Some (mk_task ''t2'' 20 ''u1'')"
proof -
  have h1: "user \<lparr>user = Some bob\<rparr> = Some bob" by simp
  have h2: "distinct (map task_id (tasks db0))" by (simp add: db0_def mk_task_def)
  have h3: "mk_task ''t2'' 20 ''u1'' \<in> set (tasks db0)" by (simp add: db0_def)
  have h4: "user_id bob \<noteq> userId (mk_task ''t2'' 20 ''u1'')" by (simp add: bob_def mk_task_def)
  have id: "task_id (mk_task ''t2'' 20 ''u1'') = ''t2''" by (simp add: mk_task_def)
  have f: "task_findUnique db0 ''t2'' = Some (mk_task ''t2'' 20 ''u1'')"
    by (simp add: task_findUnique_def db0_def mk_task_def)
  show ?thesis
    using C4_ownership_violation_leaves_record [OF h1 h2 h3 h4, where now = 99 and
        input = "\<lparr>ut_title = Given ''mine'', ut_description = Absent, ut_completed = Given True\<rparr>"]
      h2 h3 h4 f
    by (simp add: id)
qed

text \<open>
  Claim C5 as stated fails for \<^verbatim>\<open>updateTask\<close>: \<^verbatim>\<open>data: input\<close> hands the input to the ORM
  unchecked, and the owner of a task who sends \<^verbatim>\<open>title: null\<close> gets the validation error
  of the ORM, not the record snapshot.
\<close>

theorem C5_null_title_counterexample:
  "task_findUnique db0 ''t2'' = Some (mk_task ''t2'' 20 ''u1'')
   \<and> updateTask db0 99 ''t2'' \<lparr>ut_title = Null, ut_description = Absent, ut_completed = Absent\<rparr>
        \<lparr>user = Some alice\<rparr>
       = (Inl (PrismaClientError PrismaClientValidationError), db0)"
  by (simp add: updateTask_def requireAuth_def task_findUnique_def task_update_def
      data_rejected_def db0_def mk_task_def alice_def)

text \<open>
  Claim C5, amended. For an authenticated principal, \<^verbatim>\<open>updateTask\<close>, \<^verbatim>\<open>deleteTask\<close> and
  \<^verbatim>\<open>toggleTaskComplete\<close> first fetch the record by id; fail with \<^verbatim>\<open>NotFoundError\<close> and
  an unchanged database when there is none; otherwise fail with \<^verbatim>\<open>ForbiddenError\<close> and an
  unchanged database when the caller is not the owner; otherwise perform the storage
  mutation. Delete removes the rows with the id and returns the removed record; toggle
  stores and returns the record with the completion flag negated and \<open>updatedAt\<close> set to
  the clock. Update, when the input carries \<^verbatim>\<open>null\<close> for \<^verbatim>\<open>title\<close> or \<^verbatim>\<open>completed\<close>, passes
  on the validation error of the storage layer and changes nothing; when the input has no
  field, it returns the record as it is and changes nothing; otherwise it stores and
  returns the record with each field of the input written (\<^verbatim>\<open>description: null\<close> clears
  the description), the other fields kept and \<open>updatedAt\<close> set to the clock. The record
  returned by update and toggle is the one then found under the id. After a delete no
  record has the id, and a second delete of the same id by the former owner fails with
  \<^verbatim>\<open>NotFoundError\<close>.
\<close>

theorem C5_mutation_sequence:
  assumes "user ctx = Some P"
  shows "case task_findUnique d i of
           None \<Rightarrow>
             updateTask d now i input ctx = (Inl (NotFoundError ''Task not found''), d)
             \<and> deleteTask d i ctx = (Inl (NotFoundError ''Task not found''), d)
             \<and> toggleTaskComplete d now i ctx = (Inl (NotFoundError ''Task not found''), d)
         | Some R \<Rightarrow>
             if userId R \<noteq> user_id P then
               updateTask d now i input ctx
                 = (Inl (ForbiddenError ''You can only update your own tasks''), d)
               \<and> deleteTask d i ctx
                 = (Inl (ForbiddenError ''You can only delete your own tasks''), d)
               \<and> toggleTaskComplete d now i ctx
                 = (Inl (ForbiddenError ''You can only update your own tasks''), d)
             else
               (let U = R\<lparr>title := (case ut_title input of Given v \<Rightarrow> v | _ \<Rightarrow> title R),
                          description := (case ut_description input of
                                            Absent \<Rightarrow> description R | Null \<Rightarrow> None
                                          | Given v \<Rightarrow> Some v),
                          completed := (case ut_completed input of
                                          Given v \<Rightarrow> v | _ \<Rightarrow> completed R),
                          updatedAt := now\<rparr>;
                    T = R\<lparr>completed := \<not> completed R, updatedAt := now\<rparr>
                in updateTask d now i input ctx
                     = (if ut_title input = Null \<or> ut_completed input = Null
                        then (Inl (PrismaClientError PrismaClientValidationError), d)
                        else if ut_title input = Absent \<and> ut_description input = Absent
                                \<and> ut_completed input = Absent
                        then (Inr (R, user_findUnique d (user_id P)), d)
                        else (Inr (U, user_findUnique d (user_id P)),
                              d\<lparr>tasks := map (\<lambda>r. if task_id r = i then U else r) (tasks d)\<rparr>))
                 \<and> task_findUnique (snd (updateTask d now i input ctx)) i
                     = (if ut_title input = Null \<or> ut_completed input = Null
                           \<or> (ut_title input = Absent \<and> ut_description input = Absent
                               \<and> ut_completed input = Absent)
                        then Some R else Some U)
                 \<and> toggleTaskComplete d now i ctx
                     = (Inr (T, user_findUnique d (user_id P)),
                        d\<lparr>tasks := map (\<lambda>r. if task_id r = i then T else r) (tasks d)\<rparr>)
                 \<and> task_findUnique (snd (toggleTaskComplete d now i ctx)) i = Some T
                 \<and> deleteTask d i ctx
                     = (Inr (R, user_findUnique d (user_id P)),
                        d\<lparr>tasks := filter (\<lambda>r. task_id r \<noteq> i) (tasks d)\<rparr>)
                 \<and> task_findUnique (snd (deleteTask d i ctx)) i = None
                 \<and> deleteTask (snd (deleteTask d i ctx)) i ctx
                     = (Inl (NotFoundError ''Task not found''), snd (deleteTask d i ctx)))"
proof (cases "task_findUnique d i")
  case None
  then show ?thesis
    using notfound_update [OF assms None] notfound_delete [OF assms None]
      notfound_toggle [OF assms None]
    by simp
next
  case (Some R)
  show ?thesis
  proof (cases "userId R = user_id P")
    case False
    then show ?thesis
      using forbidden_update [OF assms Some False] forbidden_delete [OF assms Some False]
        forbidden_toggle [OF assms Some False] Some
      by simp
  next
    case owner: True
    define U where "U = R\<lparr>title := (case ut_title input of Given v \<Rightarrow> v | _ \<Rightarrow> title R),
                          description := (case ut_description input of
                                            Absent \<Rightarrow> description R | Null \<Rightarrow> None
                                          | Given v \<Rightarrow> Some v),
                          completed := (case ut_completed input of
                                          Given v \<Rightarrow> v | _ \<Rightarrow> completed R),
                          updatedAt := now\<rparr>"
    define T where "T = R\<lparr>completed := \<not> completed R, updatedAt := now\<rparr>"
    let ?rej = "ut_title input = Null \<or> ut_completed input = Null"
    let ?emp = "ut_title input = Absent \<and> ut_description input = Absent
                  \<and> ut_completed input = Absent"
    have upd: "updateTask d now i input ctx
                 = (if ?rej then (Inl (PrismaClientError PrismaClientValidationError), d)
                    else if ?emp then (Inr (R, user_findUnique d (user_id P)), d)
                    else (Inr (U, user_findUnique d (user_id P)),
                          d\<lparr>tasks := map (\<lambda>r. if task_id r = i then U else r) (tasks d)\<rparr>))"
    proof (cases ?rej)
      case True
      then show ?thesis
        using rejected_update [OF assms Some owner] by simp
    next
      case nrej: False
      then have n1: "ut_title input \<noteq> Null" and n2: "ut_completed input \<noteq> Null"
        by simp_all
      show ?thesis
      proof (cases ?emp)
        case True
        then show ?thesis
          using empty_update [OF assms Some owner] nrej by simp
      next
        case False
        show ?thesis
          by (simp only: owner_update(1) [OF assms Some owner n1 n2 False U_def] nrej False
              if_False)
      qed
    qed
    have found: "task_findUnique (snd (updateTask d now i input ctx)) i
                   = (if ut_title input = Null \<or> ut_completed input = Null \<or> ?emp
                      then Some R else Some U)"
    proof (cases "ut_title input = Null \<or> ut_completed input = Null \<or> ?emp")
      case True
      then have "snd (updateTask d now i input ctx) = d"
        by (auto simp: upd)
      then show ?thesis
        using True Some by (simp only: if_True)
    next
      case False
      then have n1: "ut_title input \<noteq> Null" and n2: "ut_completed input \<noteq> Null"
        and n3: "\<not> ?emp"
        by simp_all
      show ?thesis
        by (simp only: owner_update(2) [OF assms Some owner n1 n2 n3 U_def] False if_False)
    qed
    have tog: "toggleTaskComplete d now i ctx
                 = (Inr (T, user_findUnique d (user_id P)),
                    d\<lparr>tasks := map (\<lambda>r. if task_id r = i then T else r) (tasks d)\<rparr>)"
      "task_findUnique (snd (toggleTaskComplete d now i ctx)) i = Some T"
      using owner_toggle [OF assms Some owner T_def] by simp_all
    have del: "deleteTask d i ctx
                 = (Inr (R, user_findUnique d (user_id P)),
                    d\<lparr>tasks := filter (\<lambda>r. task_id r \<noteq> i) (tasks d)\<rparr>)"
      "task_findUnique (snd (deleteTask d i ctx)) i = None"
      "deleteTask (snd (deleteTask d i ctx)) i ctx
         = (Inl (NotFoundError ''Task not found''), snd (deleteTask d i ctx))"
      using owner_delete [OF assms Some owner] by simp_all
    have nn: "\<not> userId R \<noteq> user_id P"
      using owner by simp
    show ?thesis
      unfolding Some option.case if_not_P [OF nn] Let_def
      by (intro conjI upd [unfolded U_def] found [unfolded U_def] tog [unfolded T_def] del)
  qed
qed

theorem C5_mutation_sequence_witness:
  "user \<lparr>user = Some alice\<rparr> = Some alice
   \<and> task_findUnique db0 ''t2'' = Some (mk_task ''t2'' 20 ''u1'')
   \<and> fst (updateTask db0 99 ''t2''
            \<lparr>ut_title = Given ''walk'', ut_description = Absent, ut_completed = Given True\<rparr>
            \<lparr>user = Some alice\<rparr>)
       = Inr (\<lparr>task_id = ''t2'', title = ''walk'', description = None, completed = True,
               createdAt = 20, updatedAt = 99, userId = ''u1''\<rparr>, Some alice)
   \<and> task_findUnique (snd (updateTask db0 99 ''t2''
            \<lparr>ut_title = Given ''walk'', ut_description = Absent, ut_completed = Given True\<rparr>
            \<lparr>user = Some alice\<rparr>)) ''t2''
       = Some \<lparr>task_id = ''t2'', title = ''walk'', description = None, completed = True,
               createdAt = 20, updatedAt = 99, userId = ''u1''\<rparr>
   \<and> updateTask db0 99 ''t2''
        \<lparr>ut_title = Absent, ut_description = Absent, ut_completed = Absent\<rparr>
        \<lparr>user = Some alice\<rparr>
       = (Inr (mk_task ''t2'' 20 ''u1'', Some alice), db0)
   \<and> fst (toggleTaskComplete db0 99 ''t2'' \<lparr>user = Some alice\<rparr>)
       = Inr (\<lparr>task_id = ''t2'', title = ''task'', description = None, completed = True,
               createdAt = 20, updatedAt = 99, userId = ''u1''\<rparr>, Some alice)
   \<and> fst (deleteTask db0 ''t2'' \<lparr>user = Some alice\<rparr>) = Inr (mk_task ''t2'' 20 ''u1'', Some alice)
   \<and> task_findUnique (snd (deleteTask db0 ''t2'' \<lparr>user = Some alice\<rparr>)) ''t2'' = None
   \<and> fst (deleteTask (snd (deleteTask db0 ''t2'' \<lparr>user = Some alice\<rparr>)) ''t2'' \<lparr>user = Some alice\<rparr>)
       = Inl (NotFoundError ''Task not found'')"
proof -
  have h: "user \<lparr>user = Some alice\<rparr> = Some alice" by simp
  have f: "task_findUnique db0 ''t2'' = Some (mk_task ''t2'' 20 ''u1'')"
    by (simp add: task_findUnique_def db0_def mk_task_def)
  have o: "userId (mk_task ''t2'' 20 ''u1'') = user_id alice"
    by (simp add: mk_task_def alice_def)
  have u: "user_findUnique db0 (user_id alice) = Some alice"
    by (simp add: user_findUnique_def db0_def alice_def)
  have r1: "(mk_task ''t2'' 20 ''u1'')\<lparr>title := ''walk'', description := None,
              completed := True, updatedAt := 99\<rparr>
            = \<lparr>task_id = ''t2'', title = ''walk'', description = None, completed = True,
               createdAt = 20, updatedAt = 99, userId = ''u1''\<rparr>"
    by (simp add: mk_task_def)
  have r2: "(mk_task ''t2'' 20 ''u1'')\<lparr>completed := True, updatedAt := 99\<rparr>
            = \<lparr>task_id = ''t2'', title = ''task'', description = None, completed = True,
               createdAt = 20, updatedAt = 99, userId = ''u1''\<rparr>"
    by (simp add: mk_task_def)
  have c: "completed (mk_task ''t2'' 20 ''u1'') = False"
       "description (mk_task ''t2'' 20 ''u1'') = None"
    by (simp_all add: mk_task_def)
  note A = C5_mutation_sequence [OF h, where d = db0 and i = "''t2''" and now = 99 and
      input = "\<lparr>ut_title = Given ''walk'', ut_description = Absent, ut_completed = Given True\<rparr>",
      unfolded f option.case o Let_def simp_thms if_False]
  note B = C5_mutation_sequence [OF h, where d = db0 and i = "''t2''" and now = 99 and
      input = "\<lparr>ut_title = Absent, ut_description = Absent, ut_completed = Absent\<rparr>",
      unfolded f option.case o Let_def simp_thms if_False]
  have a1: "fst (updateTask db0 99 ''t2''
            \<lparr>ut_title = Given ''walk'', ut_description = Absent, ut_completed = Given True\<rparr>
            \<lparr>user = Some alice\<rparr>)
       = Inr (\<lparr>task_id = ''t2'', title = ''walk'', description = None, completed = True,
               createdAt = 20, updatedAt = 99, userId = ''u1''\<rparr>, Some alice)"
    using A [THEN conjunct1] by (simp add: u c r1)
  have a2: "task_findUnique (snd (updateTask db0 99 ''t2''
            \<lparr>ut_title = Given ''walk'', ut_description = Absent, ut_completed = Given True\<rparr>
            \<lparr>user = Some alice\<rparr>)) ''t2''
       = Some \<lparr>task_id = ''t2'', title = ''walk'', description = None, completed = True,
               createdAt = 20, updatedAt = 99, userId = ''u1''\<rparr>"
    using A [THEN conjunct2, THEN conjunct1] by (simp add: c r1)
  have a3: "fst (toggleTaskComplete db0 99 ''t2'' \<lparr>user = Some alice\<rparr>)
       = Inr (\<lparr>task_id = ''t2'', title = ''task'', description = None, completed = True,
               createdAt = 20, updatedAt = 99, userId = ''u1''\<rparr>, Some alice)"
    using A [THEN conjunct2, THEN conjunct2, THEN conjunct1] by (simp add: u c r2)
  have a4: "fst (deleteTask db0 ''t2'' \<lparr>user = Some alice\<rparr>)
              = Inr (mk_task ''t2'' 20 ''u1'', Some alice)"
    using A [THEN conjunct2, THEN conjunct2, THEN conjunct2, THEN conjunct2, THEN conjunct1]
    by (simp add: u)
  have a5: "task_findUnique (snd (deleteTask db0 ''t2'' \<lparr>user = Some alice\<rparr>)) ''t2'' = None"
    by (rule A [THEN conjunct2, THEN conjunct2, THEN conjunct2, THEN conjunct2,
          THEN conjunct2, THEN conjunct1])
  have a6: "fst (deleteTask (snd (deleteTask db0 ''t2'' \<lparr>user = Some alice\<rparr>)) ''t2''
              \<lparr>user = Some alice\<rparr>) = Inl (NotFoundError ''Task not found'')"
    using A [THEN conjunct2, THEN conjunct2, THEN conjunct2, THEN conjunct2, THEN conjunct2,
        THEN conjunct2]
    by (simp only: fst_conv)
  have b1: "updateTask db0 99 ''t2''
        \<lparr>ut_title = Absent, ut_description = Absent, ut_completed = Absent\<rparr>
        \<lparr>user = Some alice\<rparr>
       = (Inr (mk_task ''t2'' 20 ''u1'', Some alice), db0)"
    using B [THEN conjunct1] by (simp add: u)
  from h f a1 a2 b1 a3 a4 a5 a6 show ?thesis
    by (intro conjI)
qed

text \<open>
  Claim C6. For every authenticated principal \<open>P\<close> and every create input, a record that
  \<^verbatim>\<open>createTask\<close> produces has the owner reference \<open>user_id P\<close>, and it is the row that was
  appended to storage; the input type has a title and a description only, so the owner
  cannot come from the caller. A record is produced exactly when the title is accepted;
  otherwise the call fails with \<^verbatim>\<open>ValidationError\<close> and stores nothing.
\<close>

theorem C6_createTask_owner_is_principal:
  assumes "user ctx = Some P"
  shows "case createTask d newId now input ctx of
           (Inl e, d') \<Rightarrow>
             e = ValidationError ''Title must be at least 3 characters'' \<and> d' = d
             \<and> (ct_title input = [] \<or> length (trim (ct_title input)) < 3)
         | (Inr (t, u), d') \<Rightarrow>
             userId t = user_id P \<and> tasks d' = tasks d @ [t] \<and> users d' = users d
             \<and> task_id t = newId \<and> title t = ct_title input
             \<and> description t = ct_description input
             \<and> 3 \<le> length (trim (ct_title input))"
  using assms
  by (auto simp: createTask_def requireAuth_Some task_create_def include_user_def Let_def)

theorem C6_createTask_owner_witness:
  "user \<lparr>user = Some bob\<rparr> = Some bob
   \<and> fst (createTask db0 ''t9'' 99 \<lparr>ct_title = ''buy milk'', ct_description = None\<rparr>
           \<lparr>user = Some bob\<rparr>)
       = Inr (\<lparr>task_id = ''t9'', title = ''buy milk'', description = None, completed = False,
               createdAt = 99, updatedAt = 99, userId = ''u2''\<rparr>, Some bob)
   \<and> userId (last (tasks (snd (createTask db0 ''t9'' 99
               \<lparr>ct_title = ''buy milk'', ct_description = None\<rparr> \<lparr>user = Some bob\<rparr>))))
       = user_id bob"
proof -
  have h: "user \<lparr>user = Some bob\<rparr> = Some bob" by simp
  have e: "createTask db0 ''t9'' 99 \<lparr>ct_title = ''buy milk'', ct_description = None\<rparr>
             \<lparr>user = Some bob\<rparr>
           = (Inr (\<lparr>task_id = ''t9'', title = ''buy milk'', description = None,
                    completed = False, createdAt = 99, updatedAt = 99, userId = ''u2''\<rparr>,
                   Some bob),
              db0\<lparr>tasks := tasks db0 @ [\<lparr>task_id = ''t9'', title = ''buy milk'',
                    description = None, completed = False, createdAt = 99, updatedAt = 99,
                    userId = ''u2''\<rparr>]\<rparr>)"
    by (simp add: createTask_def requireAuth_def task_create_def include_user_def Let_def
        trim_def is_space_def user_findUnique_def db0_def alice_def bob_def)
  show ?thesis
    using C6_createTask_owner_is_principal [OF h, where d = db0 and newId = "''t9''" and
        now = 99 and input = "\<lparr>ct_title = ''buy milk'', ct_description = None\<rparr>"]
    by (simp add: e)
qed

section \<open>Resolving the principal\<close>

lemma getContext_Bearer:
  "getContext jwt_verify d (Some (''Bearer '' @ tok))
     = (if tok = [] then \<lparr>user = None\<rparr>
        else (case jwt_verify tok of
                Inl e \<Rightarrow> \<lparr>user = None\<rparr>
              | Inr decoded \<Rightarrow> \<lparr>user = user_findUnique d (jwt_userId decoded)\<rparr>))"
  by (simp add: getContext_def or_else_def verifyToken_def Let_def split: sum.splits)

lemma user_findUnique_stored:
  "u \<in> set (users d) \<Longrightarrow> \<exists>p. user_findUnique d (user_id u) = Some p \<and> user_id p = user_id u"
  by (cases "user_findUnique d (user_id u)")
    (auto simp: user_findUnique_def find_None_iff find_Some_iff)

lemma user_findUnique_missing:
  "i \<notin> user_id ` set (users d) \<Longrightarrow> user_findUnique d i = None"
  by (auto simp: user_findUnique_def find_None_iff)

text \<open>
  Claim C7 as stated fails: \<^verbatim>\<open>getContext\<close> looks the subject of a valid credential up
  in the user table and returns what it finds. The token \<^verbatim>\<open>ghost.token\<close> verifies, its
  subject \<^verbatim>\<open>u9\<close> is not a stored user, and the context has no principal.
\<close>

theorem C7_valid_token_no_user_counterexample:
  "jwt0 ''ghost.token'' = Inr \<lparr>jwt_userId = ''u9'', iat = 0, exp = 604800\<rparr>
   \<and> getContext jwt0 db0 (Some ''Bearer ghost.token'') = \<lparr>user = None\<rparr>"
  by (simp add: jwt0_def getContext_def or_else_def verifyToken_def user_findUnique_def db0_def
      alice_def bob_def)

text \<open>
  Claim C7, amended. For every credential that verifies (well formed, correctly signed,
  not expired), sent as \<^verbatim>\<open>Bearer <token>\<close>, the context holds the row that the user table
  has for the subject id embedded in the credential: when a user with that id is stored,
  a principal whose id equals the subject id; when none is stored, no principal. For every
  credential whose verification raises (malformed, expired or tampered), and when no
  header is sent, the context has no principal: the exception of the verifier is caught,
  and the absence of a principal is the only negative signal.
\<close>

theorem C7_getContext_principal:
  "(tok \<noteq> [] \<and> jwt_verify tok = Inr payload \<longrightarrow>
      getContext jwt_verify d (Some (''Bearer '' @ tok))
        = \<lparr>user = user_findUnique d (jwt_userId payload)\<rparr>)
   \<and> (tok \<noteq> [] \<and> jwt_verify tok = Inr payload \<and> u \<in> set (users d)
        \<and> user_id u = jwt_userId payload \<longrightarrow>
      (\<exists>p. user (getContext jwt_verify d (Some (''Bearer '' @ tok))) = Some p
           \<and> user_id p = jwt_userId payload))
   \<and> (tok \<noteq> [] \<and> jwt_verify tok = Inr payload
        \<and> jwt_userId payload \<notin> user_id ` set (users d) \<longrightarrow>
      getContext jwt_verify d (Some (''Bearer '' @ tok)) = \<lparr>user = None\<rparr>)
   \<and> (jwt_verify tok = Inl e \<longrightarrow>
      getContext jwt_verify d (Some (''Bearer '' @ tok)) = \<lparr>user = None\<rparr>)
   \<and> getContext jwt_verify d None = \<lparr>user = None\<rparr>"
  unfolding getContext_Bearer
  using user_findUnique_stored [of u d] user_findUnique_missing [of "jwt_userId payload" d]
  by (auto simp: getContext_def or_else_def)

theorem C7_getContext_principal_witness:
  "''alice.token'' \<noteq> []
   \<and> jwt0 ''alice.token'' = Inr \<lparr>jwt_userId = ''u1'', iat = 0, exp = 604800\<rparr>
   \<and> alice \<in> set (users db0)
   \<and> user_id alice = jwt_userId \<lparr>jwt_userId = ''u1'', iat = 0, exp = 604800\<rparr>
   \<and> getContext jwt0 db0 (Some (''Bearer '' @ ''alice.token'')) = \<lparr>user = Some alice\<rparr>
   \<and> jwt0 ''old.token'' = Inl TokenExpiredError
   \<and> getContext jwt0 db0 (Some (''Bearer '' @ ''old.token'')) = \<lparr>user = None\<rparr>"
proof -
  have h1: "''alice.token'' \<noteq> []" by simp
  have h2: "jwt0 ''alice.token'' = Inr \<lparr>jwt_userId = ''u1'', iat = 0, exp = 604800\<rparr>"
    by (simp add: jwt0_def)
  have h3: "alice \<in> set (users db0)" by (simp add: db0_def)
  have h4: "user_id alice = jwt_userId \<lparr>jwt_userId = ''u1'', iat = 0, exp = 604800\<rparr>"
    by (simp add: alice_def)
  have h5: "jwt0 ''old.token'' = Inl TokenExpiredError"
    by (simp add: jwt0_def)
  have f: "user_findUnique db0 ''u1'' = Some alice"
    by (simp add: user_findUnique_def db0_def alice_def)
  have a: "getContext jwt0 db0 (Some (''Bearer '' @ ''alice.token''))
             = \<lparr>user = user_findUnique db0 (jwt_userId \<lparr>jwt_userId = ''u1'', iat = 0, exp = 604800\<rparr>)\<rparr>"
    using C7_getContext_principal [where tok = "''alice.token''" and jwt_verify = jwt0
        and payload = "\<lparr>jwt_userId = ''u1'', iat = 0, exp = 604800\<rparr>" and d = db0
        and u = alice and e = TokenExpiredError] h1 h2
    by blast
  have b: "getContext jwt0 db0 (Some (''Bearer '' @ ''old.token'')) = \<lparr>user = None\<rparr>"
    using C7_getContext_principal [where tok = "''old.token''" and jwt_verify = jwt0
        and payload = "\<lparr>jwt_userId = ''u1'', iat = 0, exp = 604800\<rparr>" and d = db0
        and u = alice and e = TokenExpiredError] h5
    by blast
  have a': "getContext jwt0 db0 (Some (''Bearer '' @ ''alice.token'')) = \<lparr>user = Some alice\<rparr>"
    using a by (simp only: JwtPayload.simps f)
  from h1 h2 h3 h4 a' h5 b show ?thesis
    by (intro conjI)
qed

section \<open>The ordering\<close>

lemma sorted_desc_collection:
  assumes "distinct (map createdAt (task_where d u))"
  shows "sorted_wrt (\<lambda>a b. createdAt b < createdAt a) (collection d u)"
proof -
  let ?key = "\<lambda>t. - createdAt t"
  have s: "sorted (map ?key (collection d u))"
    by (simp add: collection_def orderBy_createdAt_desc_def)
  have "mset (map createdAt (collection d u)) = mset (map createdAt (task_where d u))"
    by (simp add: collection_def orderBy_createdAt_desc_def)
  then have "distinct (map createdAt (collection d u))"
    using assms by (metis mset_eq_imp_distinct_iff)
  then have "distinct (map ?key (collection d u))"
    by (simp add: distinct_map inj_on_def)
  with s have "sorted_wrt (<) (map ?key (collection d u))"
    by (simp add: strict_sorted_iff)
  then show ?thesis
    by (simp add: sorted_wrt_map)
qed

lemma collection_storage_order:
  assumes "distinct (map createdAt (task_where d u))"
    and "mset (task_where d' u) = mset (task_where d u)"
  shows "collection d' u = collection d u"
proof -
  let ?key = "\<lambda>t. - createdAt t"
  have d': "distinct (map createdAt (task_where d' u))"
    using assms by (metis mset_eq_imp_distinct_iff mset_map)
  have set_eq: "set (task_where d' u) = set (task_where d u)"
    using assms(2) by (rule mset_eq_setD)
  show ?thesis
    unfolding collection_def orderBy_createdAt_desc_def
  proof (rule properties_for_sort_key)
    show "mset (sort_key ?key (task_where d u)) = mset (task_where d' u)"
      using assms(2) by simp
    show "sorted (map ?key (sort_key ?key (task_where d u)))"
      by simp
    fix k assume "k \<in> set (sort_key ?key (task_where d u))"
    then have k: "k \<in> set (task_where d u)" by simp
    have a: "filter (\<lambda>x. ?key k = ?key x) (sort_key ?key (task_where d u))
               = filter (\<lambda>x. ?key k = ?key x) (task_where d u)"
      using sort_key_stable [of ?key "?key k" "task_where d u"] by (simp add: eq_commute)
    have one: "filter (\<lambda>x. ?key k = ?key x) xs = [k]"
      if "distinct (map createdAt xs)" "k \<in> set xs" for xs
      using that
    proof (induction xs)
      case Nil
      then show ?case by simp
    next
      case (Cons x xs)
      then show ?case by (auto simp: image_iff filter_empty_conv)
    qed
    show "filter (\<lambda>x. ?key k = ?key x) (sort_key ?key (task_where d u))
            = filter (\<lambda>x. ?key k = ?key x) (task_where d' u)"
      using a one [OF assms(1) k] one [OF d'] k set_eq by simp
  qed
qed

text \<open>
  Claim C8 as stated fails: the only ordering is \<^verbatim>\<open>orderBy: { createdAt: "desc" }\<close>, and
  the id breaks no tie. Two records with the same creation timestamp are listed in their
  storage order: the same two records appear as \<^verbatim>\<open>a\<close>, \<^verbatim>\<open>b\<close> in one database and as
  \<^verbatim>\<open>b\<close>, \<^verbatim>\<open>a\<close> in the other.
\<close>

theorem C8_no_id_tie_break_counterexample:
  "collection \<lparr>users = [alice], tasks = [mk_task ''a'' 5 ''u1'', mk_task ''b'' 5 ''u1'']\<rparr> ''u1''
     = [mk_task ''a'' 5 ''u1'', mk_task ''b'' 5 ''u1'']
   \<and> collection \<lparr>users = [alice], tasks = [mk_task ''b'' 5 ''u1'', mk_task ''a'' 5 ''u1'']\<rparr> ''u1''
     = [mk_task ''b'' 5 ''u1'', mk_task ''a'' 5 ''u1'']"
  by (simp add: collection_def orderBy_createdAt_desc_def task_where_def mk_task_def)

text \<open>
  Claim C8, amended. The paginator orders by creation timestamp descending and by nothing
  else. When the creation timestamps of the collection are pairwise distinct this is a
  strict total order: each record is strictly newer than every record after it, the
  listing is the same for every storage order of the same rows, and (ids being distinct)
  resuming after the record at any position returns exactly the records that follow it,
  none skipped and none repeated.
\<close>

theorem C8_order_total_on_distinct_timestamps:
  assumes "distinct (map createdAt (task_where d u))"
  shows "sorted_wrt (\<lambda>a b. createdAt b < createdAt a) (collection d u)
       \<and> (mset (task_where d' u) = mset (task_where d u) \<longrightarrow> collection d' u = collection d u)
       \<and> (distinct (map task_id (tasks d)) \<longrightarrow>
            (\<forall>i < length (collection d u).
               task_findMany d u (int n) (Some (task_id (collection d u ! i))) 1
                 = take n (drop (Suc i) (collection d u))))"
proof (intro conjI impI allI)
  show "sorted_wrt (\<lambda>a b. createdAt b < createdAt a) (collection d u)"
    using assms by (rule sorted_desc_collection)
  show "collection d' u = collection d u" if "mset (task_where d' u) = mset (task_where d u)"
    using assms that by (rule collection_storage_order)
  fix i
  assume "distinct (map task_id (tasks d))" and i: "i < length (collection d u)"
  then have "distinct (map task_id (collection d u))"
    by (simp add: distinct_ids_collection)
  then show "task_findMany d u (int n) (Some (task_id (collection d u ! i))) 1
               = take n (drop (Suc i) (collection d u))"
    using findMany_after [of "int n" d u i] i by simp
qed

theorem C8_order_witness:
  "distinct (map createdAt (task_where db0 ''u1''))
   \<and> mset (task_where db0_reordered ''u1'') = mset (task_where db0 ''u1'')
   \<and> collection db0_reordered ''u1'' = collection db0 ''u1''
   \<and> distinct (map task_id (tasks db0))
   \<and> task_findMany db0 ''u1'' (int 1) (Some ''t5'') 1 = [mk_task ''t4'' 40 ''u1'']"
proof -
  have h1: "distinct (map createdAt (task_where db0 ''u1''))"
    by (simp add: task_where_def db0_def mk_task_def)
  have h2: "mset (task_where db0_reordered ''u1'') = mset (task_where db0 ''u1'')"
    by (simp add: task_where_def db0_def db0_reordered_def mk_task_def)
  note T = C8_order_total_on_distinct_timestamps [OF h1, where d' = db0_reordered and n = 1]
  have same: "collection db0_reordered ''u1'' = collection db0 ''u1''"
    using T h2 by blast
  have "0 < length (collection db0 ''u1'')"
    by (simp add: collection_db0)
  then have "task_findMany db0 ''u1'' (int 1) (Some (task_id (collection db0 ''u1'' ! 0))) 1
          = take 1 (drop (Suc 0) (collection db0 ''u1''))"
    using T distinct_ids_db0 by blast
  then have next_page: "task_findMany db0 ''u1'' (int 1) (Some ''t5'') 1 = [mk_task ''t4'' 40 ''u1'']"
    by (simp add: collection_db0 mk_task_def)
  from h1 h2 same distinct_ids_db0 next_page show ?thesis
    by (intro conjI)
qed

section \<open>The target of the listing\<close>

text \<open>
  Claim C9 as stated fails for the empty string: \<^verbatim>\<open>userId || currentUser.id\<close> reads
  \<^verbatim>\<open>userId: ""\<close> as no user id, and the caller gets their own tasks, none of which is
  owned by the user id supplied.
\<close>

theorem C9_empty_userId_counterexample:
  "tasksCursor db0 (Some 2) None (Some []) \<lparr>user = Some alice\<rparr>
     = Inr \<lparr>edges = [\<lparr>cursor = ''t5'', node = (mk_task ''t5'' 50 ''u1'', Some alice)\<rparr>,
                     \<lparr>cursor = ''t4'', node = (mk_task ''t4'' 40 ''u1'', Some alice)\<rparr>],
            pageInfo = \<lparr>hasNextPage = True, hasPreviousPage = False,
                        startCursor = Some ''t5'', endCursor = Some ''t4''\<rparr>,
            totalCount = 4\<rparr>
   \<and> task_where db0 [] = []"
  by (simp add: tasksCursor_def requireAuth_def or_else_def truthy_def task_count_def
      task_findMany_def task_where_def orderBy_createdAt_desc_def slice0_def edge_of_def
      include_user_def user_findUnique_def db0_def mk_task_def alice_def bob_def Let_def)

text \<open>
  Claim C9, amended. For every authenticated principal \<open>P\<close> and every non-empty user id
  \<open>U\<close> supplied as \<^verbatim>\<open>userId\<close>, whether or not \<open>U\<close> is the id of \<open>P\<close>, \<^verbatim>\<open>tasksCursor\<close>
  returns what it returns to a caller whose own id is \<open>U\<close> and who supplies no
  \<^verbatim>\<open>userId\<close>: any authenticated caller can page through any user's tasks. The items of
  every page are tasks owned by \<open>U\<close> and \<open>totalCount\<close> is the number of tasks owned by
  \<open>U\<close>; the first page holds the \<open>first\<close> newest tasks of \<open>U\<close>, and once \<open>first\<close> reaches
  their number, every task that \<open>U\<close> owns. When \<^verbatim>\<open>userId\<close> is absent or the empty string,
  the same holds with the caller's own id for \<open>U\<close>.
\<close>

theorem C9_tasksCursor_target_user:
  assumes "user ctx = Some P"
    and "(uid = Some U \<and> U \<noteq> []) \<or> ((uid = None \<or> uid = Some []) \<and> U = user_id P)"
  shows "(user_id Q = U \<longrightarrow>
            tasksCursor d first_arg after uid ctx
              = tasksCursor d first_arg after None \<lparr>user = Some Q\<rparr>)
       \<and> (\<exists>page. tasksCursor d first_arg after uid ctx = Inr page
              \<and> set (page_items page) \<subseteq> {t \<in> set (tasks d). userId t = U}
              \<and> totalCount page = length (filter (\<lambda>t. userId t = U) (tasks d)))
       \<and> (\<exists>page. tasksCursor d (Some k) None uid ctx = Inr page
              \<and> page = spec_page d (collection d U) k False (length (collection d U))
              \<and> page_items page = take (nat k) (collection d U)
              \<and> (int (length (filter (\<lambda>t. userId t = U) (tasks d))) \<le> k \<longrightarrow>
                    set (page_items page) = {t \<in> set (tasks d). userId t = U}))"
proof (intro conjI impI)
  have target: "or_else uid (user_id P) = U"
    using assms(2) by (auto simp: or_else_def)
  have ra: "requireAuth \<lparr>user = Some Q\<rparr> = Inr Q"
    by (simp add: requireAuth_def)
  have lc: "length (collection d U) = length (filter (\<lambda>t. userId t = U) (tasks d))"
    by (simp add: collection_def orderBy_createdAt_desc_def task_where_def)
  show "tasksCursor d first_arg after uid ctx
          = tasksCursor d first_arg after None \<lparr>user = Some Q\<rparr>"
    if "user_id Q = U"
  proof -
    have own: "or_else None (user_id Q) = U"
      using that by (simp add: or_else_def)
    show ?thesis
      by (simp only: tasksCursor_def requireAuth_Some [OF assms(1)] ra sum.case target own)
  qed
  show "\<exists>page. tasksCursor d first_arg after uid ctx = Inr page
              \<and> set (page_items page) \<subseteq> {t \<in> set (tasks d). userId t = U}
              \<and> totalCount page = length (filter (\<lambda>t. userId t = U) (tasks d))"
    using tasksCursor_drawn_from [OF assms(1), of d first_arg after uid]
    by (simp add: target set_collection lc page_items_def comp_def)
  have nt: "\<not> truthy None" by (simp add: truthy_def)
  have fetch: "task_findMany d (or_else uid (user_id P)) (k + 1) None 0
                 = take (nat (k + 1)) (collection d U)"
    if "0 \<le> k"
    using that by (simp add: findMany_start target)
  have page: "tasksCursor d (Some k) None uid ctx
                = Inr (spec_page d (collection d U) k False (length (collection d U)))"
    using tasksCursor_refines_spec_page [OF assms(1), of k d uid None "collection d U"]
      fetch nt
    by (simp add: target)
  have all: "set (take (nat k) (collection d U)) = {t \<in> set (tasks d). userId t = U}"
    if "int (length (filter (\<lambda>t. userId t = U) (tasks d))) \<le> k"
  proof -
    have "length (collection d U) \<le> nat k"
      using that by (simp add: lc)
    then have "take (nat k) (collection d U) = collection d U"
      by simp
    then show ?thesis
      by (simp add: set_collection)
  qed
  show "\<exists>page. tasksCursor d (Some k) None uid ctx = Inr page
              \<and> page = spec_page d (collection d U) k False (length (collection d U))
              \<and> page_items page = take (nat k) (collection d U)
              \<and> (int (length (filter (\<lambda>t. userId t = U) (tasks d))) \<le> k \<longrightarrow>
                    set (page_items page) = {t \<in> set (tasks d). userId t = U})"
    using page all by (simp add: page_items_spec_page)
qed

theorem C9_tasksCursor_target_witness:
  "user \<lparr>user = Some bob\<rparr> = Some bob
   \<and> ''u1'' \<noteq> []
   \<and> user_id bob \<noteq> ''u1''
   \<and> user_id alice = ''u1''
   \<and> tasksCursor db0 (Some 2) None (Some ''u1'') \<lparr>user = Some bob\<rparr>
       = tasksCursor db0 (Some 2) None None \<lparr>user = Some alice\<rparr>
   \<and> tasksCursor db0 (Some 2) None (Some ''u1'') \<lparr>user = Some bob\<rparr>
       = Inr \<lparr>edges = [\<lparr>cursor = ''t5'', node = (mk_task ''t5'' 50 ''u1'', Some alice)\<rparr>,
                       \<lparr>cursor = ''t4'', node = (mk_task ''t4'' 40 ''u1'', Some alice)\<rparr>],
              pageInfo = \<lparr>hasNextPage = True, hasPreviousPage = False,
                          startCursor = Some ''t5'', endCursor = Some ''t4''\<rparr>,
              totalCount = 4\<rparr>"
proof -
  have h1: "user \<lparr>user = Some bob\<rparr> = Some bob" by simp
  have h2: "''u1'' \<noteq> []" by simp
  have h3: "user_id bob \<noteq> ''u1''" by (simp add: bob_def)
  have h4: "user_id alice = ''u1''" by (simp add: alice_def)
  have tgt: "(Some ''u1'' = Some ''u1'' \<and> ''u1'' \<noteq> [])
               \<or> ((Some ''u1'' = None \<or> Some ''u1'' = Some []) \<and> ''u1'' = user_id bob)"
    by simp
  note T = C9_tasksCursor_target_user [OF h1 tgt, where d = db0 and Q = alice and k = 2
      and first_arg = "Some 2" and after = None]
  have same: "tasksCursor db0 (Some 2) None (Some ''u1'') \<lparr>user = Some bob\<rparr>
                = tasksCursor db0 (Some 2) None None \<lparr>user = Some alice\<rparr>"
    using T h4 by blast
  have pg: "spec_page db0 (collection db0 ''u1'') 2 False (length (collection db0 ''u1''))
              = \<lparr>edges = [\<lparr>cursor = ''t5'', node = (mk_task ''t5'' 50 ''u1'', Some alice)\<rparr>,
                       \<lparr>cursor = ''t4'', node = (mk_task ''t4'' 40 ''u1'', Some alice)\<rparr>],
              pageInfo = \<lparr>hasNextPage = True, hasPreviousPage = False,
                          startCursor = Some ''t5'', endCursor = Some ''t4''\<rparr>,
              totalCount = 4\<rparr>"
  proof -
    have e: "edge_of db0 (mk_task ''t5'' 50 ''u1'')
               = \<lparr>cursor = ''t5'', node = (mk_task ''t5'' 50 ''u1'', Some alice)\<rparr>"
      "edge_of db0 (mk_task ''t4'' 40 ''u1'')
               = \<lparr>cursor = ''t4'', node = (mk_task ''t4'' 40 ''u1'', Some alice)\<rparr>"
      by (simp_all add: edge_of_def include_user_def user_findUnique_def db0_def mk_task_def
          alice_def)
    have i: "task_id (mk_task ''t5'' 50 ''u1'') = ''t5''" "task_id (mk_task ''t4'' 40 ''u1'') = ''t4''"
      by (simp_all add: mk_task_def)
    show ?thesis
      unfolding collection_db0
      by (simp add: spec_page_def Let_def e i)
  qed
  have "tasksCursor db0 (Some 2) None (Some ''u1'') \<lparr>user = Some bob\<rparr>
          = Inr (spec_page db0 (collection db0 ''u1'') 2 False (length (collection db0 ''u1'')))"
    using T by blast
  then have listed: "tasksCursor db0 (Some 2) None (Some ''u1'') \<lparr>user = Some bob\<rparr>
       = Inr \<lparr>edges = [\<lparr>cursor = ''t5'', node = (mk_task ''t5'' 50 ''u1'', Some alice)\<rparr>,
                       \<lparr>cursor = ''t4'', node = (mk_task ''t4'' 40 ''u1'', Some alice)\<rparr>],
              pageInfo = \<lparr>hasNextPage = True, hasPreviousPage = False,
                          startCursor = Some ''t5'', endCursor = Some ''t4''\<rparr>,
              totalCount = 4\<rparr>"
    by (simp only: pg)
  from h1 h2 h3 h4 same listed show ?thesis
    by (intro conjI)
qed

section \<open>The single-task query\<close>

text \<open>
  Claim C10. The query \<^verbatim>\<open>task\<close> never reads its context: its result for any caller is
  the result for the anonymous caller. Every stored task is returned whole, with its
  owner's row, under its id, whoever owns it; and the query fails, with
  \<^verbatim>\<open>NotFoundError\<close>, exactly when no stored task has the id.
\<close>

theorem C10_task_query_unguarded:
  "task_query d i ctx = task_query d i \<lparr>user = None\<rparr>
   \<and> (distinct (map task_id (tasks d)) \<and> t \<in> set (tasks d)
        \<longrightarrow> task_query d (task_id t) ctx = Inr (t, user_findUnique d (userId t)))
   \<and> ((\<exists>e. task_query d i ctx = Inl e) = (i \<notin> task_id ` set (tasks d)))
   \<and> (i \<notin> task_id ` set (tasks d)
        \<longrightarrow> task_query d i ctx = Inl (NotFoundError ''Task not found''))"
proof -
  have a: "task_query d i ctx = task_query d i \<lparr>user = None\<rparr>"
    by (simp add: task_query_def)
  have b: "task_query d (task_id t) ctx = Inr (t, user_findUnique d (userId t))"
    if "distinct (map task_id (tasks d))" "t \<in> set (tasks d)"
    using task_findUnique_stored [OF that] by (simp add: task_query_def include_user_def)
  have c: "(\<exists>e. task_query d i ctx = Inl e) = (i \<notin> task_id ` set (tasks d))"
    using task_findUnique_None [of d i]
    by (cases "task_findUnique d i") (simp_all add: task_query_def)
  have e: "task_query d i ctx = Inl (NotFoundError ''Task not found'')"
    if "i \<notin> task_id ` set (tasks d)"
    using that task_findUnique_None [of d i] by (simp add: task_query_def)
  show ?thesis
    using a b c e by blast
qed

theorem C10_task_query_witness:
  "distinct (map task_id (tasks db0))
   \<and> mk_task ''t3'' 30 ''u2'' \<in> set (tasks db0)
   \<and> task_query db0 ''t3'' \<lparr>user = None\<rparr> = Inr (mk_task ''t3'' 30 ''u2'', Some bob)
   \<and> task_query db0 ''t3'' \<lparr>user = Some alice\<rparr> = Inr (mk_task ''t3'' 30 ''u2'', Some bob)
   \<and> ''zz'' \<notin> task_id ` set (tasks db0)
   \<and> task_query db0 ''zz'' \<lparr>user = Some alice\<rparr> = Inl (NotFoundError ''Task not found'')"
proof -
  have h1: "distinct (map task_id (tasks db0))" by (simp add: db0_def mk_task_def)
  have h2: "mk_task ''t3'' 30 ''u2'' \<in> set (tasks db0)" by (simp add: db0_def)
  have h3: "''zz'' \<notin> task_id ` set (tasks db0)" by (simp add: db0_def mk_task_def)
  have id: "task_id (mk_task ''t3'' 30 ''u2'') = ''t3''" "userId (mk_task ''t3'' 30 ''u2'') = ''u2''"
    by (simp_all add: mk_task_def)
  have u: "user_findUnique db0 ''u2'' = Some bob"
    by (simp add: user_findUnique_def db0_def alice_def bob_def)
  show ?thesis
    using C10_task_query_unguarded [where d = db0 and i = "''t3''" and
        ctx = "\<lparr>user = Some alice\<rparr>" and t = "mk_task ''t3'' 30 ''u2''"]
      C10_task_query_unguarded [where d = db0 and i = "''zz''" and
        ctx = "\<lparr>user = Some alice\<rparr>" and t = "mk_task ''t3'' 30 ''u2''"]
      h1 h2 h3
    by (auto simp add: id u)
qed

end
